theory Spec2Isabelle
  imports Main
begin

section \<open>Python exceptions that escape or steer the program\<close>

text \<open>
  Every exception the modelled code can raise is a value. \<open>SystemExit\<close> is what
  \<open>parser.error\<close> ends in; \<open>ReError\<close> is \<open>re.error\<close>.
\<close>

datatype py_error =
  TypeError | NameError | KeyError | AttributeError | IndexError | ReError | SystemExit
  | OSError | UnicodeDecodeError

section \<open>getSafeFilename: the slug of a URL\<close>

text \<open>
  \<open>remove_protocol = re.compile('://(.*)$')\<close>. In Python's \<open>re\<close> (no flags) the dot matches
  every character but the line feed, and \<open>$\<close> matches at the end of the string or just
  before a line feed that is the last character. A greedy \<open>.*\<close> started right after
  \<open>://\<close> therefore stops at the first line feed or at the end, and \<open>$\<close> can only succeed
  at that stopping point: the remainder must hold no line feed but possibly a final one.
  \<open>search\<close> tries the start positions from left to right.
\<close>

definition newline :: char where
  "newline = CHR 0x0A"

definition dot_star_dollar :: "string \<Rightarrow> bool" where
  "dot_star_dollar r = (newline \<notin> set (butlast r))"

definition group1 :: "string \<Rightarrow> string" where
  "group1 r = (if r \<noteq> [] \<and> last r = newline then butlast r else r)"

definition at_separator :: "string \<Rightarrow> bool" where
  "at_separator s = (take 3 s = ''://'')"

fun remove_protocol_search :: "string \<Rightarrow> string option" where
  "remove_protocol_search [] = None"
| "remove_protocol_search (c # cs) =
     (if at_separator (c # cs) \<and> dot_star_dollar (drop 3 (c # cs))
      then Some (group1 (drop 3 (c # cs)))
      else remove_protocol_search cs)"

text \<open>
  \<open>re.sub('[^\w\-_\. ]', '_', ...)\<close>: every character outside the class is replaced by an
  underscore. Which characters \<open>\w\<close> matches is a table of the regex engine (on a
  Python 3 \<open>str\<close> it also holds the letters and digits beyond ASCII); it is the
  parameter \<open>w\<close>. \<open>ascii_word\<close> is that table on ASCII characters only, for the
  ASCII urls of the examples.
\<close>

definition safe_char :: "(char \<Rightarrow> bool) \<Rightarrow> char \<Rightarrow> bool" where
  "safe_char w c = (w c \<or> c = CHR ''-'' \<or> c = CHR ''_'' \<or> c = CHR ''.'' \<or> c = CHR '' '')"

definition sub_suspicious :: "(char \<Rightarrow> bool) \<Rightarrow> string \<Rightarrow> string" where
  "sub_suspicious w s = map (\<lambda>c. if safe_char w c then c else CHR ''_'') s"

definition strip_underscores :: "string \<Rightarrow> string" where
  "strip_underscores s =
     rev (dropWhile (\<lambda>c. c = CHR ''_'') (rev (dropWhile (\<lambda>c. c = CHR ''_'') s)))"

definition ascii_word :: "char \<Rightarrow> bool" where
  "ascii_word c =
     (let n = (of_char c :: nat)
      in (97 \<le> n \<and> n \<le> 122) \<or> (65 \<le> n \<and> n \<le> 90) \<or> (48 \<le> n \<and> n \<le> 57) \<or> n = 95)"

text \<open>
  \<open>remove_protocol.search(string).group(1)\<close> raises AttributeError when \<open>search\<close> returns
  None.
\<close>

definition getSafeFilename :: "(char \<Rightarrow> bool) \<Rightarrow> string \<Rightarrow> py_error + string" where
  "getSafeFilename w string =
     (case remove_protocol_search string of
        None \<Rightarrow> Inl AttributeError
      | Some g \<Rightarrow> Inr (strip_underscores (sub_suspicious w g)))"

text \<open>The claim's own words: what follows the first \<open>://\<close> of a string, if there is one.\<close>

fun after_first_separator :: "string \<Rightarrow> string option" where
  "after_first_separator [] = None"
| "after_first_separator (c # cs) =
     (if at_separator (c # cs) then Some (drop 3 (c # cs)) else after_first_separator cs)"

section \<open>Sequencing code that may raise\<close>

definition andThen :: "py_error + 'a \<Rightarrow> ('a \<Rightarrow> py_error + 'b) \<Rightarrow> py_error + 'b" where
  "andThen r f = (case r of Inl e \<Rightarrow> Inl e | Inr x \<Rightarrow> f x)"

section \<open>Dictionaries\<close>

text \<open>
  A Python dict is an association list with one entry per key: a lookup is \<open>map_of\<close>,
  \<open>d[k] = v\<close> replaces the value in place or appends a new entry, as the insertion order
  of a dict does.
\<close>

fun dict_set :: "string \<Rightarrow> 'v \<Rightarrow> (string \<times> 'v) list \<Rightarrow> (string \<times> 'v) list" where
  "dict_set k v [] = [(k, v)]"
| "dict_set k v ((k', v') # d) = (if k' = k then (k, v) # d else (k', v') # dict_set k v d)"

fun dict_del :: "string \<Rightarrow> (string \<times> 'v) list \<Rightarrow> (string \<times> 'v) list" where
  "dict_del k [] = []"
| "dict_del k ((k', v') # d) = (if k' = k then d else (k', v') # dict_del k d)"

section \<open>Data model\<close>

text \<open>One entry of \<open>conf['pages']\<close>: the keys \<open>url\<close>, \<open>selector\<close> and, if given, \<open>regex\<close>.\<close>

record PageSpec =
  url :: string
  selector :: string
  regex :: "string option"

text \<open>
  A fragment is one element of the tuple \<open>content\<close>: the selector's text, or one group of
  \<open>re.search(...).groups()\<close>, which is None for a group that took no part in the match.
\<close>

type_synonym fragment = "string option"

text \<open>
  \<open>file_data\<close>, the dict kept in a page's data file. \<open>state_url\<close> is its key \<open>url\<close>; the
  keys \<open>error_description\<close> and \<open>new_url\<close> may be absent.
\<close>

record PageState =
  last_content_change :: int
  last_check :: int
  title :: string
  state_url :: string
  domain :: string
  content :: "fragment list"
  error :: bool
  error_description :: "string option"
  new_url :: "string option"

text \<open>
  One entry of \<open>allChanges\<close>. \<open>added\<close> and \<open>removed\<close> are comprehensions over Python sets,
  whose iteration order the source does not fix: they are sets here.
\<close>

record ChangeRecord =
  added :: "fragment set"
  removed :: "fragment set"
  change_title :: string
  change_url :: string
  change_domain :: string

text \<open>
  A data file holds a serialized \<open>file_data\<close>, or text that \<open>json.load\<close> rejects with
  JSONDecodeError, or bytes that are not UTF-8, on which reading raises
  UnicodeDecodeError.
\<close>

datatype file_content = StateFile PageState | Unparsable | NotUtf8

type_synonym filesystem = "(string \<times> file_content) list"

section \<open>_log\<close>

text \<open>
  \<open>_log(levelName, msg, *args, **kwargs)\<close>. A call with fewer than two positional arguments
  raises TypeError before the body runs. In \<open>run\<close> the logger has its handlers
  (\<open>setupLogger\<close> ran before), so the call ends in
  \<open>logger._log(level, msg, args, **kwargs)\<close>, which raises TypeError for a keyword that
  \<open>Logger._log\<close> does not have. A level name outside \<open>logging._nameToLevel\<close> reaches
  \<open>raise KeyError(...format(level))\<close>, where \<open>level\<close> is no name: NameError; a level
  that is known but not in \<open>_verbosityToLevel\<close> raises KeyError. The call sites pass
  lower-case literals, and the names are compared in lower case here. A message is
  recorded by its format template. The calls under \<open>if _debug\<close> are left out.
\<close>

datatype level = DEBUG | INFO | WARNING | CRITICAL

type_synonym log = "(level \<times> string) list"

definition level_of_name :: "string \<Rightarrow> py_error + level" where
  "level_of_name n =
     (if n = ''debug'' then Inr DEBUG
      else if n = ''info'' then Inr INFO
      else if n = ''warning'' then Inr WARNING
      else if n = ''critical'' then Inr CRITICAL
      else if n \<in> set [''error'', ''warn'', ''fatal'', ''notset''] then Inl KeyError
      else Inl NameError)"

definition logger_keywords :: "string list" where
  "logger_keywords = [''exc_info'', ''extra'', ''stack_info'', ''stacklevel'']"

definition log_call :: "string list \<Rightarrow> string list \<Rightarrow> log \<Rightarrow> py_error + log" where
  "log_call positional keywords lg =
     (case positional of
        levelName # msg # rest \<Rightarrow>
          andThen (level_of_name levelName)
            (\<lambda>l. if list_all (\<lambda>k. k \<in> set logger_keywords) keywords
                 then Inr (lg @ [(l, msg)])
                 else Inl TypeError)
      | _ \<Rightarrow> Inl TypeError)"

section \<open>run: one page\<close>

subsection \<open>The domain of a URL\<close>

text \<open>
  \<open>domain_regex = re.compile('://(.[^/]+)')\<close>: after \<open>://\<close> one character that is not a
  line feed, then as many characters other than \<open>/\<close> as there are, at least one.
\<close>

fun domain_regex_search :: "string \<Rightarrow> string option" where
  "domain_regex_search [] = None"
| "domain_regex_search (c # cs) =
     (if at_separator (c # cs)
      then (case drop 3 (c # cs) of
              a # b # rest \<Rightarrow>
                if a \<noteq> newline \<and> b \<noteq> CHR ''/''
                then Some (a # takeWhile (\<lambda>x. x \<noteq> CHR ''/'') (b # rest))
                else domain_regex_search cs
            | _ \<Rightarrow> domain_regex_search cs)
      else domain_regex_search cs)"

subsection \<open>Reading the previous data (lines 456-478)\<close>

definition default_file_data :: "PageSpec \<Rightarrow> py_error + PageState" where
  "default_file_data page =
     (case domain_regex_search (url page) of
        None \<Rightarrow> Inl AttributeError
      | Some d \<Rightarrow>
          Inr \<lparr>last_content_change = 0, last_check = 0, title = [], state_url = url page,
               domain = d, content = [], error = False, error_description = None,
               new_url = None\<rparr>)"

definition use_defaults :: "PageSpec \<Rightarrow> string list \<Rightarrow> log \<Rightarrow> py_error + PageState \<times> log" where
  "use_defaults page addedPageUrls lg =
     andThen (if url page \<in> set addedPageUrls then Inr lg
              else log_call [''warning'',
                     ''Data file ({}) load failed, please fix your configuration! Using defaults. {}: {}'']
                     [] lg)
       (\<lambda>lg'. andThen (default_file_data page) (\<lambda>file_data. Inr (file_data, lg')))"

text \<open>
  \<open>except (OSError, JSONDecodeError)\<close> catches a missing file and a file that does not
  parse; UnicodeDecodeError is neither and leaves \<open>run\<close>.
\<close>

definition load_file_data ::
  "filesystem \<Rightarrow> string \<Rightarrow> PageSpec \<Rightarrow> string list \<Rightarrow> log \<Rightarrow> py_error + PageState \<times> log" where
  "load_file_data fs data_file page addedPageUrls lg =
     (case map_of fs data_file of
        Some (StateFile file_data) \<Rightarrow> Inr (file_data, lg)
      | Some Unparsable \<Rightarrow> use_defaults page addedPageUrls lg
      | Some NotUtf8 \<Rightarrow> Inl UnicodeDecodeError
      | None \<Rightarrow> use_defaults page addedPageUrls lg)"

subsection \<open>Reacting to a url change (lines 480-492)\<close>

text \<open>
  Line 482 is \<open>_log('debug' 'Updating url to {}'.format(...))\<close>: the two literals are one
  string, so \<open>_log\<close> gets one positional argument. Lines 484-492 are \<open>apply_url_change\<close>:
  the domain and the new file name are both computed from \<open>page['url']\<close>.
\<close>

definition apply_url_change ::
  "(char \<Rightarrow> bool) \<Rightarrow> string \<Rightarrow> PageSpec \<Rightarrow> string \<Rightarrow> string \<Rightarrow> PageState \<Rightarrow> log
     \<Rightarrow> py_error + PageState \<times> string \<times> string option \<times> log" where
  "apply_url_change w dir page data_file nu file_data lg =
     andThen (case domain_regex_search (url page) of
                None \<Rightarrow> Inl AttributeError | Some d \<Rightarrow> Inr d)
       (\<lambda>d. andThen (getSafeFilename w (url page))
          (\<lambda>name. Inr (file_data\<lparr>state_url := nu, new_url := None, domain := d\<rparr>,
                        dir @ ''/'' @ name, Some data_file, lg)))"

definition react_to_url_change ::
  "(char \<Rightarrow> bool) \<Rightarrow> string \<Rightarrow> PageSpec \<Rightarrow> string \<Rightarrow> string option \<Rightarrow> PageState \<Rightarrow> log
     \<Rightarrow> py_error + PageState \<times> string \<times> string option \<times> log" where
  "react_to_url_change w dir page data_file old_data_file file_data lg =
     (case new_url file_data of
        None \<Rightarrow> Inr (file_data, data_file, old_data_file, lg)
      | Some nu \<Rightarrow>
          andThen (log_call [''debugUpdating url to {}''] [] lg)
            (\<lambda>lg'. apply_url_change w dir page data_file nu file_data lg'))"

subsection \<open>Loading the page and extracting the content (lines 495-523)\<close>

text \<open>
  What the browser gives for one page: an exception of \<open>browser.get\<close> or
  \<open>find_element_by_css_selector\<close>, or the element's text. \<open>OtherWebDriverException\<close> is any
  other subclass of WebDriverException (a timeout, say): the \<open>except\<close> clause catches it,
  and \<open>err_type == WebDriverException\<close> is false for it.
\<close>

datatype fetch_exc = WebDriverException | NoSuchElementException | OtherWebDriverException

datatype caught = Fetch fetch_exc | LookupError

record poll =
  timestamp :: int
  response :: "fetch_exc + string"
  browser_title :: string

text \<open>
  \<open>re.search(pattern, text)\<close> is a parameter: no match, the groups of the match, or
  \<open>re.error\<close> for a pattern that does not compile (a pattern from the config file was
  never checked), which no clause of the \<open>try\<close> catches.
\<close>

datatype search_result = NoMatch | Groups "fragment list" | PatternError

definition extract_content ::
  "(string \<Rightarrow> string \<Rightarrow> search_result) \<Rightarrow> PageSpec \<Rightarrow> fetch_exc + string
     \<Rightarrow> py_error + (caught + fragment list)" where
  "extract_content re_search page resp =
     (case resp of
        Inl e \<Rightarrow> Inr (Inl (Fetch e))
      | Inr text \<Rightarrow>
          (case regex page of
             Some r \<Rightarrow>
               (case re_search r text of
                  PatternError \<Rightarrow> Inl ReError
                | NoMatch \<Rightarrow> Inr (Inl LookupError)
                | Groups gs \<Rightarrow> Inr (Inr gs))
           | None \<Rightarrow>
               if text = [] then Inr (Inl LookupError) else Inr (Inr [Some text])))"

subsection \<open>The failing branch (lines 525-544)\<close>

fun description_of :: "caught \<Rightarrow> string" where
  "description_of (Fetch WebDriverException) = ''server cannot be contacted''"
| "description_of (Fetch NoSuchElementException) = ''element cannot be found''"
| "description_of LookupError = ''couldn't find what we were looking for''"
| "description_of (Fetch OtherWebDriverException) = ''???''"

definition on_failure :: "caught \<Rightarrow> PageState \<Rightarrow> log \<Rightarrow> py_error + PageState \<times> log" where
  "on_failure err file_data lg =
     andThen (if \<not> error file_data
              then andThen (log_call [''warning'', ''Query erroring out! {}: {}, {}''] [] lg)
                     (\<lambda>lg'. Inr (file_data\<lparr>error := True\<rparr>, lg'))
              else andThen (log_call [''info'', ''Query is still erroring out. {}: {}, {}''] [] lg)
                     (\<lambda>lg'. Inr (file_data, lg')))
       (\<lambda>(fd, lg'). Inr (fd\<lparr>error_description := Some (description_of err)\<rparr>, lg'))"

subsection \<open>The successful branch (lines 546-575)\<close>

text \<open>\<open>del(file_data['error_description'])\<close> raises KeyError when the key is absent.\<close>

definition clear_error :: "PageState \<Rightarrow> log \<Rightarrow> py_error + PageState \<times> log" where
  "clear_error file_data lg =
     (if error file_data
      then andThen (log_call [''info'', ''Server is now responding, previously it was not''] [] lg)
             (\<lambda>lg'. case error_description file_data of
                      None \<Rightarrow> Inl KeyError
                    | Some d \<Rightarrow> Inr (file_data\<lparr>error := False, error_description := None\<rparr>, lg'))
      else Inr (file_data, lg))"

definition diff_content ::
  "fragment list \<Rightarrow> string \<Rightarrow> int \<Rightarrow> PageState \<Rightarrow> PageState \<times> ChangeRecord option" where
  "diff_content content' btitle ts file_data =
     (let old = set (content file_data); new = set content'
      in if old = new then (file_data, None)
         else (file_data\<lparr>content := content', title := btitle, last_content_change := ts\<rparr>,
               Some \<lparr>added = {i \<in> new. i \<notin> old}, removed = {i \<in> old. i \<notin> new},
                     change_title = btitle, change_url = state_url file_data,
                     change_domain = domain file_data\<rparr>))"

definition on_success ::
  "fragment list \<Rightarrow> string \<Rightarrow> int \<Rightarrow> PageState \<Rightarrow> log
     \<Rightarrow> py_error + PageState \<times> ChangeRecord option \<times> log" where
  "on_success content' btitle ts file_data lg =
     andThen (clear_error file_data lg)
       (\<lambda>(fd, lg'). case diff_content content' btitle ts fd of (fd', change) \<Rightarrow> Inr (fd', change, lg'))"

subsection \<open>One poll of one page (lines 495-578)\<close>

definition detect ::
  "(string \<Rightarrow> string \<Rightarrow> search_result) \<Rightarrow> PageSpec \<Rightarrow> poll \<Rightarrow> PageState \<Rightarrow> log
     \<Rightarrow> py_error + PageState \<times> ChangeRecord option \<times> log" where
  "detect re_search page p file_data lg =
     andThen (extract_content re_search page (response p))
       (\<lambda>r. andThen
               (case r of
                  Inl err \<Rightarrow> andThen (on_failure err file_data lg) (\<lambda>(fd, lg'). Inr (fd, None, lg'))
                | Inr content' \<Rightarrow> on_success content' (browser_title p) (timestamp p) file_data lg)
               (\<lambda>(fd, change, lg'). Inr (fd\<lparr>last_check := timestamp p\<rparr>, change, lg')))"

subsection \<open>Updating the data file (lines 580-599)\<close>

text \<open>
  \<open>open(data_file, 'w')\<close> raises OSError where the path cannot be written; which paths
  can is the parameter \<open>writable\<close>. \<open>old_data_file\<close> is a local of \<open>run\<close> that only the
  url change assigns: unbound (None here), \<open>os.remove(old_data_file)\<close> raises NameError,
  which is caught and passed; bound, the removal raises OSError when the file is not
  there. The handler of OSError calls \<open>_log\<close> with the keyword \<open>file\<close> and then
  evaluates \<open>formatJSON(change_data)\<close>, where \<open>change_data\<close> is a local of \<open>main\<close> and no
  name in \<open>run\<close>.
\<close>

definition format_change_data :: "py_error + file_content" where
  "format_change_data = Inl NameError"

definition save_later ::
  "string \<Rightarrow> filesystem \<Rightarrow> (string \<times> file_content) list \<Rightarrow> log
     \<Rightarrow> py_error + filesystem \<times> (string \<times> file_content) list \<times> log" where
  "save_later data_file fs tryAgain lg =
     andThen (log_call [''info'', ''Couldn't update data file for {}! Trying again later. {}: {}'']
                [''file''] lg)
       (\<lambda>lg'. andThen format_change_data
                 (\<lambda>payload. Inr (fs, dict_set data_file payload tryAgain, lg')))"

definition update_data_file ::
  "(string \<Rightarrow> bool) \<Rightarrow> string \<Rightarrow> string option \<Rightarrow> PageState \<Rightarrow> filesystem
     \<Rightarrow> (string \<times> file_content) list \<Rightarrow> log
     \<Rightarrow> py_error + filesystem \<times> (string \<times> file_content) list \<times> log" where
  "update_data_file writable data_file old_data_file file_data fs tryAgain lg =
     (if writable data_file
      then (let fs' = dict_set data_file (StateFile file_data) fs
            in case old_data_file of
                 None \<Rightarrow> Inr (fs', tryAgain, lg)
               | Some old \<Rightarrow>
                   if map_of fs' old \<noteq> None then Inr (dict_del old fs', tryAgain, lg)
                   else save_later data_file fs' tryAgain lg)
      else save_later data_file fs tryAgain lg)"

section \<open>Configuration values\<close>

text \<open>
  The values of \<open>conf\<close> and of the configuration file: strings, booleans, integers and
  lists. A list holds strings (\<open>event_list\<close>) and page entries (\<open>pages\<close>); a page entry
  is a dict, so two of them are equal when their keys and values are, whatever the order
  of the keys. Other JSON values (null, nested lists, dicts of another shape) are not
  modelled.
\<close>

datatype item = IStr string | IPage PageSpec

datatype cval = VStr string | VBool bool | VInt int | VList "item list"

type_synonym pydict = "(string \<times> cval) list"

text \<open>\<open>for i in v\<close>, also \<open>len(v)\<close>: a string gives its characters, a number raises TypeError.\<close>

fun iterate :: "cval \<Rightarrow> py_error + item list" where
  "iterate (VList xs) = Inr xs"
| "iterate (VStr s) = Inr (map (\<lambda>c. IStr [c]) s)"
| "iterate (VBool b) = Inl TypeError"
| "iterate (VInt n) = Inl TypeError"

section \<open>run (lines 429-602)\<close>

text \<open>
  The state of the loop: the data directory's files, \<open>allChanges\<close>, \<open>tryAgain\<close>, what was
  logged, and the local \<open>old_data_file\<close>, which keeps its value from one page to the next.
\<close>

record run_state =
  fs :: filesystem
  allChanges :: "ChangeRecord list"
  tryAgain :: "(string \<times> file_content) list"
  logged :: log
  old_data_file :: "string option"

text \<open>
  What \<open>run\<close> takes from outside: the regex engine (\<open>\w\<close> and \<open>re.search\<close>), the clock and
  the browser at the i-th page of the loop, and the paths that can be written. The
  browser session itself (\<open>getBrowser\<close>) is taken to start.
\<close>

record run_env =
  word_char :: "char \<Rightarrow> bool"
  re_search :: "string \<Rightarrow> string \<Rightarrow> search_result"
  world :: "nat \<Rightarrow> poll"
  writable :: "string \<Rightarrow> bool"

definition data_file_of :: "run_env \<Rightarrow> pydict \<Rightarrow> item \<Rightarrow> py_error + string \<times> string \<times> PageSpec" where
  "data_file_of env conf page =
     (case map_of conf ''data_dir'' of
        None \<Rightarrow> Inl KeyError
      | Some (VStr dir) \<Rightarrow>
          (case page of
             IStr s \<Rightarrow> Inl TypeError
           | IPage pg \<Rightarrow>
               andThen (getSafeFilename (word_char env) (url pg))
                 (\<lambda>name. Inr (dir, dir @ ''/'' @ name, pg)))
      | Some v \<Rightarrow> Inl TypeError)"

definition run_page ::
  "run_env \<Rightarrow> pydict \<Rightarrow> string list \<Rightarrow> nat \<Rightarrow> item \<Rightarrow> run_state \<Rightarrow> py_error + run_state" where
  "run_page env conf addedPageUrls i page st =
     andThen (data_file_of env conf page)
       (\<lambda>(dir, data_file, pg).
     andThen (load_file_data (fs st) data_file pg addedPageUrls (logged st))
       (\<lambda>(file_data, lg).
     andThen (react_to_url_change (word_char env) dir pg data_file (old_data_file st) file_data lg)
       (\<lambda>(file_data, data_file, old, lg).
     andThen (detect (re_search env) pg (world env i) file_data lg)
       (\<lambda>(file_data, change, lg).
     andThen (update_data_file (writable env) data_file old file_data (fs st) (tryAgain st) lg)
       (\<lambda>(fs', tryAgain', lg).
          Inr \<lparr>fs = fs',
               allChanges = allChanges st @ (case change of None \<Rightarrow> [] | Some c \<Rightarrow> [c]),
               tryAgain = tryAgain', logged = lg, old_data_file = old\<rparr>)))))"

fun run_pages ::
  "run_env \<Rightarrow> pydict \<Rightarrow> string list \<Rightarrow> nat \<Rightarrow> item list \<Rightarrow> run_state \<Rightarrow> py_error + run_state" where
  "run_pages env conf addedPageUrls i [] st = Inr st"
| "run_pages env conf addedPageUrls i (page # pages) st =
     andThen (run_page env conf addedPageUrls i page st)
       (run_pages env conf addedPageUrls (Suc i) pages)"

definition run :: "run_env \<Rightarrow> pydict \<Rightarrow> string list \<Rightarrow> filesystem \<Rightarrow> py_error + run_state" where
  "run env conf addedPageUrls fs0 =
     (let st0 = \<lparr>fs = fs0, allChanges = [], tryAgain = [], logged = [], old_data_file = None\<rparr>
      in case map_of conf ''pages'' of
           None \<Rightarrow> Inl KeyError
         | Some v \<Rightarrow>
             andThen (iterate v)
               (\<lambda>pages. if length pages = 0
                        then andThen (log_call [''warning'', ''No pages specified!''] [] [])
                               (\<lambda>lg. Inr (st0\<lparr>logged := lg\<rparr>))
                        else run_pages env conf addedPageUrls 0 pages st0))"

section \<open>main: the run and the second try of the unsaved files (lines 59-151)\<close>

text \<open>
  \<open>changes, tryAgain = run(conf, addedPageUrls)\<close> stands before the \<open>try\<close>: an exception
  of \<open>run\<close> leaves \<open>main\<close> at once. After a run that returns, the \<open>finally\<close> block writes
  every entry of \<open>tryAgain\<close> once more. The notification events between the two are left
  out; \<open>writable_later\<close> says which paths can be written at that time.
\<close>

fun save_again :: "(string \<Rightarrow> bool) \<Rightarrow> (string \<times> file_content) list \<Rightarrow> filesystem \<times> log \<Rightarrow> filesystem \<times> log" where
  "save_again writable_later [] (files, lg) = (files, lg)"
| "save_again writable_later ((data_file, payload) # rest) (files, lg) =
     (if writable_later data_file
      then save_again writable_later rest
             (dict_set data_file payload files,
              lg @ [(INFO, ''Previously errored file ({}) saved now happily.'')])
      else save_again writable_later rest
             (files, lg @ [(WARNING, ''Cannot save data file ({})! {}: {}'')]))"

definition main_run ::
  "run_env \<Rightarrow> (string \<Rightarrow> bool) \<Rightarrow> pydict \<Rightarrow> string list \<Rightarrow> filesystem
     \<Rightarrow> py_error + ChangeRecord list \<times> filesystem \<times> log" where
  "main_run env writable_later conf addedPageUrls fs0 =
     andThen (run env conf addedPageUrls fs0)
       (\<lambda>st. let lg = (if length (tryAgain st) > 0
                       then logged st @ [(INFO, ''Now trying to save unsaved changes ({}) again'')]
                       else logged st)
             in case save_again writable_later (tryAgain st) (fs st, lg) of
                  (fs', lg') \<Rightarrow> Inr (allChanges st, fs', lg'))"

section \<open>parseArgs (lines 153-321)\<close>

text \<open>
  The namespace argparse returns. \<open>args_page\<close> is None without \<open>--page\<close>; each of its
  entries has at least one element (\<open>nargs='+'\<close>). An option that was not given is None,
  and \<open>if args.x\<close> is also false for an empty string or list.
\<close>

record args =
  args_page :: "string list list option"
  args_browser :: "string option"
  args_use_xvfb :: bool
  args_event_list :: "string list option"
  args_log_path :: "string option"
  args_save_config :: bool
  args_print_config :: bool
  args_config_file :: "string option"
  args_data_dir :: "string option"
  args_no_run :: bool
  args_verbose :: nat
  args_quiet :: bool

text \<open>
  What \<open>parseArgs\<close> takes from outside: whether \<open>re.compile\<close> accepts a pattern, the
  home directory, and the browsers \<open>webdriver\<close> has an attribute for.
\<close>

record parse_env =
  re_valid :: "string \<Rightarrow> bool"
  parse_home :: string
  webdriver_has :: "string \<Rightarrow> bool"

subsection \<open>The url grammar (line 211)\<close>

text \<open>
  \<open>https?://[-a-zA-Z0-9@:%._\+~#=]{2,256}\.[a-z]{2,63}/?[-a-zA-Z0-9@:%_\+.~#?&//=]*\<close>,
  used with \<open>match\<close>: a prefix of the string has to match, and the last two parts of
  the pattern match the empty string. So the string starts with the scheme, then some n
  from 2 to 256 characters of the first class, a dot and two lower-case letters.
\<close>

definition alnum :: "char \<Rightarrow> bool" where
  "alnum c =
     (let n = (of_char c :: nat)
      in (97 \<le> n \<and> n \<le> 122) \<or> (65 \<le> n \<and> n \<le> 90) \<or> (48 \<le> n \<and> n \<le> 57))"

definition lower_az :: "char \<Rightarrow> bool" where
  "lower_az c = (let n = (of_char c :: nat) in 97 \<le> n \<and> n \<le> 122)"

definition host_char :: "char \<Rightarrow> bool" where
  "host_char c = (alnum c \<or> c \<in> set ''-@:%._+~#='')"

definition host_and_tld :: "string \<Rightarrow> bool" where
  "host_and_tld r =
     list_ex (\<lambda>n. n + 2 < length r \<and> list_all host_char (take n r) \<and> r ! n = CHR ''.''
                  \<and> lower_az (r ! (n + 1)) \<and> lower_az (r ! (n + 2)))
       [2..<257]"

definition url_regex_match :: "string \<Rightarrow> bool" where
  "url_regex_match s =
     ((take 7 s = ''http://'' \<and> host_and_tld (drop 7 s))
      \<or> (take 8 s = ''https://'' \<and> host_and_tld (drop 8 s)))"

subsection \<open>The pages of the command line (lines 203-250)\<close>

fun parse_pages :: "(string \<Rightarrow> bool) \<Rightarrow> string list list \<Rightarrow> PageSpec list \<Rightarrow> py_error + PageSpec list" where
  "parse_pages valid [] pages = Inr pages"
| "parse_pages valid ([] # ps) pages = Inl IndexError"
| "parse_pages valid ((u # rest) # ps) pages =
     (if length (u # rest) < 2 then Inl SystemExit
      else if length (u # rest) > 3 then Inl SystemExit
      else if \<not> url_regex_match u then Inl SystemExit
      else if list_ex (\<lambda>i. url i = u) pages then Inl SystemExit
      else if length (u # rest) = 3 \<and> \<not> valid (rest ! 1) then Inl SystemExit
      else parse_pages valid ps
             (pages @ [\<lparr>url = u, selector = rest ! 0,
                        regex = (if length (u # rest) = 3 then Some (rest ! 1) else None)\<rparr>]))"

definition truthy :: "string option \<Rightarrow> bool" where
  "truthy v = (case v of None \<Rightarrow> False | Some s \<Rightarrow> s \<noteq> [])"

definition valid_notification_events :: "string list" where
  "valid_notification_events = [''notify'', ''log'', ''print'']"

definition default_browser :: string where
  "default_browser = ''Firefox''"

definition parse_page_args ::
  "parse_env \<Rightarrow> args \<Rightarrow> pydict \<times> string list \<Rightarrow> py_error + pydict \<times> string list" where
  "parse_page_args env a cs =
     (case cs of (argConf, setParams) \<Rightarrow>
        (case args_page a of
           None \<Rightarrow> Inr (argConf, setParams)
         | Some [] \<Rightarrow> Inr (argConf, setParams)
         | Some (p # ps) \<Rightarrow>
             andThen (parse_pages (re_valid env) (p # ps) [])
               (\<lambda>pages. Inr (dict_set ''pages'' (VList (map IPage pages)) argConf,
                              setParams @ ''pages'' # map (\<lambda>p. ''pages'') (p # ps)))))"

definition parse_browser :: "args \<Rightarrow> pydict \<times> string list \<Rightarrow> pydict \<times> string list" where
  "parse_browser a cs =
     (case cs of (argConf, setParams) \<Rightarrow>
        (if truthy (args_browser a)
         then (dict_set ''browser'' (VStr (the (args_browser a))) argConf, setParams @ [''browser''])
         else (dict_set ''browser'' (VStr default_browser) argConf, setParams)))"

definition parse_use_xvfb :: "args \<Rightarrow> pydict \<times> string list \<Rightarrow> pydict \<times> string list" where
  "parse_use_xvfb a cs =
     (case cs of (argConf, setParams) \<Rightarrow>
        (dict_set ''use_xvfb'' (VBool (args_use_xvfb a)) argConf,
         if args_use_xvfb a then setParams @ [''use_xvfb''] else setParams))"

definition parse_event_list ::
  "args \<Rightarrow> pydict \<times> string list \<Rightarrow> py_error + pydict \<times> string list" where
  "parse_event_list a cs =
     (case cs of (argConf, setParams) \<Rightarrow>
        (case args_event_list a of
           None \<Rightarrow> Inr (dict_set ''event_list'' (VList (map IStr valid_notification_events)) argConf,
                        setParams)
         | Some [] \<Rightarrow> Inr (dict_set ''event_list'' (VList (map IStr valid_notification_events)) argConf,
                          setParams)
         | Some (e # es) \<Rightarrow>
             if list_all (\<lambda>e. e \<in> set valid_notification_events) (e # es)
             then Inr (dict_set ''event_list'' (VList (map IStr (e # es))) argConf,
                       setParams @ [''event_list''])
             else Inl SystemExit))"

definition parse_log_path :: "parse_env \<Rightarrow> args \<Rightarrow> pydict \<times> string list \<Rightarrow> pydict \<times> string list" where
  "parse_log_path env a cs =
     (case cs of (argConf, setParams) \<Rightarrow>
        (if truthy (args_log_path a)
         then (dict_set ''log_path'' (VStr (the (args_log_path a))) argConf, setParams @ [''log_path''])
         else (dict_set ''log_path'' (VStr (parse_home env @ ''/.change-poller.log'')) argConf,
               setParams)))"

text \<open>
  Lines 296-306. With \<open>--config-file\<close> the source appends \<open>'config_file'\<close> to
  \<open>setParams\<close> and stores the path under the key \<open>'data_dir'\<close>.
\<close>

definition parse_config_file :: "args \<Rightarrow> pydict \<times> string list \<Rightarrow> pydict \<times> string list" where
  "parse_config_file a cs =
     (case cs of (argConf, setParams) \<Rightarrow>
        (if truthy (args_config_file a)
         then (dict_set ''data_dir'' (VStr (the (args_config_file a))) argConf,
               setParams @ [''config_file''])
         else (argConf, setParams)))"

definition parse_data_dir :: "args \<Rightarrow> pydict \<times> string list \<Rightarrow> pydict \<times> string list" where
  "parse_data_dir a cs =
     (case cs of (argConf, setParams) \<Rightarrow>
        (if truthy (args_data_dir a)
         then (dict_set ''data_dir'' (VStr (the (args_data_dir a))) argConf,
               setParams @ [''data_dir''])
         else (argConf, setParams)))"

definition what_to_do :: "args \<Rightarrow> string list" where
  "what_to_do a =
     (let w = (if args_save_config a then [''save-config''] else [])
                @ (if args_print_config a then [''print-config''] else [])
      in if length w = 0 \<and> \<not> args_no_run a then w @ [''run''] else w)"

definition verbosity_of :: "args \<Rightarrow> int" where
  "verbosity_of a =
     (if args_quiet a then - 1 else if args_verbose a \<noteq> 0 then int (args_verbose a) else 0)"

definition parseArgs :: "parse_env \<Rightarrow> args \<Rightarrow> py_error + pydict \<times> string list \<times> string list" where
  "parseArgs env a =
     andThen (parse_page_args env a
                (dict_set ''verbosity'' (VInt (verbosity_of a)) [(''pages'', VList [])], []))
       (\<lambda>cs. andThen (parse_event_list a (parse_use_xvfb a (parse_browser a cs)))
          (\<lambda>cs. case parse_data_dir a (parse_config_file a (parse_log_path env a cs)) of
                  (argConf, setParams) \<Rightarrow>
                    if ''run'' \<in> set (what_to_do a)
                       \<and> \<not> webdriver_has env (if truthy (args_browser a) then the (args_browser a)
                                               else default_browser)
                    then Inl SystemExit
                    else Inr (argConf, what_to_do a, setParams)))"

section \<open>getConfig (lines 323-427)\<close>

text \<open>
  What \<open>getConfig\<close> takes from outside: the home directory, the two environment
  variables, and what \<open>json.load\<close> gives for the file at a path (None where \<open>open\<close> raises
  OSError or the file does not parse). The steps on the disk are in
  \<open>getConfig_on_disk\<close> below.
\<close>

record config_env =
  home :: string
  XDG_CONFIG_HOME :: "string option"
  XDG_DATA_HOME :: "string option"
  read_config :: "string \<Rightarrow> pydict option"

text \<open>Lines 333-347: the path under \<open>'config_file'\<close> if \<open>conf\<close> has that key, else a guess.\<close>

definition guessed_config_file :: "config_env \<Rightarrow> string" where
  "guessed_config_file env =
     (case XDG_CONFIG_HOME env of None \<Rightarrow> home env @ ''/.config'' | Some d \<Rightarrow> d)
       @ ''/change-poller/config''"

definition resolve_config_file :: "config_env \<Rightarrow> pydict \<Rightarrow> pydict" where
  "resolve_config_file env conf =
     (if map_of conf ''config_file'' \<noteq> None then conf
      else dict_set ''config_file'' (VStr (guessed_config_file env)) conf)"

definition resolve_data_dir :: "config_env \<Rightarrow> pydict \<Rightarrow> pydict" where
  "resolve_data_dir env conf =
     (if map_of conf ''data_dir'' \<noteq> None then conf
      else dict_set ''data_dir''
             (VStr ((case XDG_DATA_HOME env of None \<Rightarrow> home env @ ''/.local/share'' | Some d \<Rightarrow> d)
                    @ ''/change-poller''))
             conf)"

subsection \<open>Merging the lists (lines 370-384)\<close>

text \<open>
  \<open>for i in conf[k]: if i not in fileConf[k]: ... fileConf[k].append(i)\<close>. The test is
  Python's equality of the whole entry against the list as it grows; \<open>i['url']\<close> on a
  string raises TypeError.
\<close>

fun merge_list ::
  "string \<Rightarrow> item list \<Rightarrow> item list \<times> string list \<Rightarrow> py_error + item list \<times> string list" where
  "merge_list k [] (stored, addedPageUrls) = Inr (stored, addedPageUrls)"
| "merge_list k (i # rest) (stored, addedPageUrls) =
     (if i \<in> set stored then merge_list k rest (stored, addedPageUrls)
      else if k = ''pages''
           then (case i of
                   IPage p \<Rightarrow> merge_list k rest (stored @ [i], addedPageUrls @ [url p])
                 | IStr s \<Rightarrow> Inl TypeError)
           else merge_list k rest (stored @ [i], addedPageUrls))"

subsection \<open>Merging the keys (lines 364-384)\<close>

fun merge_keys ::
  "string list \<Rightarrow> string list \<Rightarrow> pydict \<times> pydict \<times> string list
     \<Rightarrow> py_error + pydict \<times> pydict \<times> string list" where
  "merge_keys setParams [] (conf, fileConf, addedPageUrls) = Inr (conf, fileConf, addedPageUrls)"
| "merge_keys setParams (k # ks) (conf, fileConf, addedPageUrls) =
     (case map_of fileConf k of
        None \<Rightarrow> Inl KeyError
      | Some v \<Rightarrow>
          if map_of conf k \<noteq> None \<and> k \<in> set setParams
          then (case v of
                  VList stored \<Rightarrow>
                    andThen (iterate (the (map_of conf k)))
                      (\<lambda>mine. andThen (merge_list k mine (stored, addedPageUrls))
                         (\<lambda>(stored', added').
                            merge_keys setParams ks
                              (dict_set k (VList stored') conf,
                               dict_set k (VList stored') fileConf, added')))
                | VStr s \<Rightarrow> merge_keys setParams ks (conf, fileConf, addedPageUrls)
                | VBool b \<Rightarrow> merge_keys setParams ks (conf, fileConf, addedPageUrls)
                | VInt n \<Rightarrow> merge_keys setParams ks (conf, fileConf, addedPageUrls))
          else merge_keys setParams ks (dict_set k v conf, fileConf, addedPageUrls))"

text \<open>
  The result: \<open>conf\<close>, \<open>addedPageUrls\<close>, whether the default configuration is to be
  saved, and what was logged.
\<close>

definition getConfig ::
  "config_env \<Rightarrow> pydict \<Rightarrow> string list \<Rightarrow> py_error + pydict \<times> string list \<times> bool \<times> log" where
  "getConfig env conf setParams =
     (let conf1 = resolve_config_file env conf
      in case map_of conf1 ''config_file'' of
           Some (VStr path) \<Rightarrow>
             andThen
               (case read_config env path of
                  Some fileConf \<Rightarrow>
                    andThen (merge_keys setParams (map fst fileConf) (conf1, fileConf, []))
                      (\<lambda>(conf2, fileConf', addedPageUrls). Inr (conf2, addedPageUrls, False, []))
                | None \<Rightarrow>
                    andThen (log_call [''warning'',
                               ''Failed to load config file, is this first time running? Using defaults and trying to save afterwards. {}: {}'']
                               [] [])
                      (\<lambda>lg. Inr (conf1, [], True, lg)))
               (\<lambda>(conf2, addedPageUrls, save_default_config, lg).
                  Inr (resolve_data_dir env conf2, addedPageUrls, save_default_config, lg))
         | _ \<Rightarrow> Inl TypeError)"

subsection \<open>The directories and the first save (lines 351-356, 413-423)\<close>

text \<open>
  \<open>getConfig\<close> above is the function without its three steps on the disk, each of
  which can raise OSError outside the \<open>try\<close>: \<open>os.makedirs\<close> of the configuration
  file's directory before the file is read, \<open>os.makedirs\<close> of the data directory after
  the merge, and the write of the default configuration. \<open>getConfig_on_disk\<close> is the
  function with them. \<open>dirname\<close> is \<open>os.path.dirname\<close>.
\<close>

record disk =
  is_dir :: "string \<Rightarrow> bool"
  makedirs_ok :: "string \<Rightarrow> bool"
  can_write :: "string \<Rightarrow> bool"

definition dirname :: "string \<Rightarrow> string" where
  "dirname p =
     (let head = rev (dropWhile (\<lambda>c. c \<noteq> CHR ''/'') (rev p))
      in if head \<noteq> [] \<and> \<not> list_all (\<lambda>c. c = CHR ''/'') head
         then rev (dropWhile (\<lambda>c. c = CHR ''/'') (rev head))
         else head)"

definition ensure_dir :: "disk \<Rightarrow> string \<Rightarrow> py_error + unit" where
  "ensure_dir d path =
     (if is_dir d path then Inr () else if makedirs_ok d path then Inr () else Inl OSError)"

definition save_default ::
  "disk \<Rightarrow> pydict \<times> string list \<times> bool \<times> log \<Rightarrow> py_error + pydict \<times> string list \<times> bool \<times> log" where
  "save_default d r =
     (case r of (conf, urls, save_default_config, lg) \<Rightarrow>
        if save_default_config
        then (case map_of conf ''config_file'' of
                Some (VStr path) \<Rightarrow> if can_write d path then Inr r else Inl OSError
              | _ \<Rightarrow> Inl TypeError)
        else Inr r)"

definition getConfig_on_disk ::
  "disk \<Rightarrow> config_env \<Rightarrow> pydict \<Rightarrow> string list
     \<Rightarrow> py_error + pydict \<times> string list \<times> bool \<times> log" where
  "getConfig_on_disk d env conf setParams =
     (case map_of (resolve_config_file env conf) ''config_file'' of
        Some (VStr path) \<Rightarrow>
          andThen (ensure_dir d (dirname path))
            (\<lambda>u. andThen (getConfig env conf setParams)
               (\<lambda>r. case map_of (fst r) ''data_dir'' of
                      Some (VStr data) \<Rightarrow> andThen (ensure_dir d data) (\<lambda>u. save_default d r)
                    | _ \<Rightarrow> Inl TypeError))
      | _ \<Rightarrow> Inl TypeError)"

section \<open>Concrete inputs\<close>

text \<open>
  A page without a pattern, a page with one, and some states. \<open>never_matches\<close> stands
  for \<open>re.search\<close> where it is only asked for a pattern and a text that do not match.
\<close>

definition example_page :: PageSpec where
  "example_page = \<lparr>url = ''http://ab.cd/x'', selector = ''h1'', regex = None\<rparr>"

definition pattern_page :: PageSpec where
  "pattern_page = \<lparr>url = ''http://ab.cd/x'', selector = ''h1'', regex = Some ''v(.)''\<rparr>"

definition never_matches :: "string \<Rightarrow> string \<Rightarrow> search_result" where
  "never_matches pattern text = NoMatch"

definition stable_state :: PageState where
  "stable_state =
     \<lparr>last_content_change = 50, last_check = 60, title = ''T'', state_url = ''http://ab.cd/x'',
      domain = ''ab.cd'', content = [Some ''v1'', Some ''v0''], error = False,
      error_description = None, new_url = None\<rparr>"

definition erroring_state :: PageState where
  "erroring_state =
     stable_state\<lparr>error := True, error_description := Some ''element cannot be found''\<rparr>"

definition text_poll :: "int \<Rightarrow> string \<Rightarrow> poll" where
  "text_poll ts text = \<lparr>timestamp = ts, response = Inr text, browser_title = ''T2''\<rparr>"

definition failing_poll :: "int \<Rightarrow> fetch_exc \<Rightarrow> poll" where
  "failing_poll ts e = \<lparr>timestamp = ts, response = Inl e, browser_title = ''T2''\<rparr>"

text \<open>
  A page whose pattern has two groups, and \<open>re.search\<close> on that pattern and the text
  \<open>v0v1\<close>: the groups are \<open>v0\<close> and \<open>v1\<close>.
\<close>

definition two_group_page :: PageSpec where
  "two_group_page = \<lparr>url = ''http://ab.cd/x'', selector = ''h1'', regex = Some ''(v.)(v.)''\<rparr>"

definition two_groups :: "string \<Rightarrow> string \<Rightarrow> search_result" where
  "two_groups pattern text =
     (if pattern = ''(v.)(v.)'' \<and> text = ''v0v1'' then Groups [Some ''v0'', Some ''v1'']
      else NoMatch)"

text \<open>A command line, and a machine whose only configuration file is \<open>/tmp/my.conf\<close>.\<close>

definition example_parse_env :: parse_env where
  "example_parse_env =
     \<lparr>re_valid = (\<lambda>p. True), parse_home = ''/home/u'', webdriver_has = (\<lambda>b. b = ''Firefox'')\<rparr>"

definition no_args :: args where
  "no_args =
     \<lparr>args_page = None, args_browser = None, args_use_xvfb = False, args_event_list = None,
      args_log_path = None, args_save_config = False, args_print_config = False,
      args_config_file = None, args_data_dir = None, args_no_run = False,
      args_verbose = 0, args_quiet = False\<rparr>"

definition stored_config :: pydict where
  "stored_config =
     [(''data_dir'', VStr ''/var/poller''),
      (''pages'', VList [IPage example_page,
                         IPage \<lparr>url = ''https://example.com'', selector = ''p'', regex = None\<rparr>])]"

definition example_config_env :: config_env where
  "example_config_env =
     \<lparr>home = ''/home/u'', XDG_CONFIG_HOME = None, XDG_DATA_HOME = None,
      read_config = (\<lambda>p. if p = ''/tmp/my.conf'' then Some stored_config else None)\<rparr>"

definition default_config_env :: config_env where
  "default_config_env =
     \<lparr>home = ''/home/u'', XDG_CONFIG_HOME = None, XDG_DATA_HOME = None,
      read_config = (\<lambda>p. if p = ''/home/u/.config/change-poller/config''
                          then Some stored_config else None)\<rparr>"

text \<open>The command line \<open>-p http://ab.cd/x h2\<close>, as \<open>parseArgs\<close> returns it.\<close>

definition other_selector_conf :: pydict where
  "other_selector_conf =
     [(''pages'', VList [IPage \<lparr>url = ''http://ab.cd/x'', selector = ''h2'', regex = None\<rparr>])]"

text \<open>The command line \<open>-c /tmp/my.conf\<close>, and what \<open>parseArgs\<close> makes of it.\<close>

definition explicit_config_args :: args where
  "explicit_config_args = no_args\<lparr>args_config_file := Some ''/tmp/my.conf''\<rparr>"

definition explicit_config_conf :: pydict where
  "explicit_config_conf =
     [(''pages'', VList []), (''verbosity'', VInt 0), (''browser'', VStr ''Firefox''),
      (''use_xvfb'', VBool False),
      (''event_list'', VList [IStr ''notify'', IStr ''log'', IStr ''print'']),
      (''log_path'', VStr ''/home/u/.change-poller.log''),
      (''data_dir'', VStr ''/tmp/my.conf'')]"

text \<open>
  A run over one page whose data file is there; the browser shows \<open>v2\<close>. In
  \<open>read_only_env\<close> no path can be written. \<open>moved_state\<close> is a state that waits for its
  url change.
\<close>

definition one_page_conf :: pydict where
  "one_page_conf = [(''pages'', VList [IPage example_page]), (''data_dir'', VStr ''/d'')]"

definition example_env :: run_env where
  "example_env =
     \<lparr>word_char = ascii_word, re_search = never_matches,
      world = (\<lambda>i. text_poll 200 ''v2''), writable = (\<lambda>p. True)\<rparr>"

definition read_only_env :: run_env where
  "read_only_env = example_env\<lparr>writable := (\<lambda>p. False)\<rparr>"

definition moved_state :: PageState where
  "moved_state = stable_state\<lparr>new_url := Some ''http://ef.gh/y''\<rparr>"

definition start_state :: "filesystem \<Rightarrow> run_state" where
  "start_state files =
     \<lparr>fs = files, allChanges = [], tryAgain = [], logged = [], old_data_file = None\<rparr>"

text \<open>
  A disk on which \<open>/tmp/my.conf\<close> is a file: it is no directory and \<open>os.makedirs\<close> on
  it raises FileExistsError.
\<close>

definition example_disk :: disk where
  "example_disk =
     \<lparr>is_dir = (\<lambda>p. p = ''/home/u/.config/change-poller''),
      makedirs_ok = (\<lambda>p. p \<noteq> ''/tmp/my.conf''),
      can_write = (\<lambda>p. True)\<rparr>"

section \<open>The slug\<close>

lemma no_newline_dot_star_dollar: "newline \<notin> set r \<Longrightarrow> dot_star_dollar r"
  unfolding dot_star_dollar_def by (meson in_set_butlastD)

lemma no_newline_group1: "newline \<notin> set r \<Longrightarrow> group1 r = r"
  unfolding group1_def using last_in_set by fastforce

lemma search_at_first_separator:
  "after_first_separator s = Some r \<Longrightarrow> newline \<notin> set r \<Longrightarrow> remove_protocol_search s = Some r"
proof (induction s)
  case Nil
  then show ?case by simp
next
  case (Cons c cs)
  show ?case
  proof (cases "at_separator (c # cs)")
    case True
    with Cons.prems have r: "drop 3 (c # cs) = r" by simp
    from Cons.prems(2) have "dot_star_dollar r" "group1 r = r"
      by (rule no_newline_dot_star_dollar, rule no_newline_group1)
    with True r show ?thesis
      by (simp only: remove_protocol_search.simps if_True simp_thms)
  next
    case False
    with Cons.prems have "after_first_separator cs = Some r"
      by (simp only: after_first_separator.simps if_False)
    with Cons.IH Cons.prems(2) have "remove_protocol_search cs = Some r" by simp
    with False show ?thesis
      by (simp only: remove_protocol_search.simps if_False simp_thms)
  qed
qed

lemma search_without_separator:
  "after_first_separator s = None \<Longrightarrow> remove_protocol_search s = None"
proof (induction s)
  case Nil
  then show ?case by simp
next
  case (Cons c cs)
  show ?case
  proof (cases "at_separator (c # cs)")
    case True
    with Cons.prems show ?thesis by (simp only: after_first_separator.simps if_True option.distinct)
  next
    case False
    with Cons.prems have "after_first_separator cs = None"
      by (simp only: after_first_separator.simps if_False)
    with Cons.IH have "remove_protocol_search cs = None" by simp
    with False show ?thesis
      by (simp only: remove_protocol_search.simps if_False simp_thms)
  qed
qed

text \<open>\<open>after_first_separator\<close> is defined exactly on the strings that contain \<open>://\<close>.\<close>

lemma at_separator_decompose: "at_separator s \<Longrightarrow> s = ''://'' @ drop 3 s"
  unfolding at_separator_def by (metis append_take_drop_id)

lemma at_separator_append: "at_separator (''://'' @ r)"
  unfolding at_separator_def by simp

lemma after_first_separator_Some:
  "after_first_separator s = Some r \<Longrightarrow> \<exists>p. s = p @ ''://'' @ r"
proof (induction s)
  case Nil
  then show ?case by simp
next
  case (Cons c cs)
  show ?case
  proof (cases "at_separator (c # cs)")
    case True
    with Cons.prems have "drop 3 (c # cs) = r"
      by (simp only: after_first_separator.simps if_True option.inject)
    with at_separator_decompose[OF True] have "c # cs = [] @ ''://'' @ r"
      by (simp only: append_Nil)
    then show ?thesis by blast
  next
    case False
    with Cons.prems have "after_first_separator cs = Some r"
      by (simp only: after_first_separator.simps if_False)
    with Cons.IH obtain p where "cs = p @ ''://'' @ r" by blast
    then have "c # cs = (c # p) @ ''://'' @ r" by (simp only: append_Cons)
    then show ?thesis by blast
  qed
qed

lemma after_first_separator_None:
  "after_first_separator s = None \<Longrightarrow> s \<noteq> p @ ''://'' @ r"
proof (induction s arbitrary: p)
  case Nil
  then show ?case by simp
next
  case (Cons c cs)
  have nt: "\<not> at_separator (c # cs)"
  proof
    assume "at_separator (c # cs)"
    with Cons.prems show False
      by (simp only: after_first_separator.simps if_True option.distinct)
  qed
  with Cons.prems have n: "after_first_separator cs = None"
    by (simp only: after_first_separator.simps if_False)
  show ?case
  proof (cases p)
    case Nil
    show ?thesis
    proof
      assume "c # cs = p @ ''://'' @ r"
      with Nil have "c # cs = ''://'' @ r" by (simp only: append_Nil)
      with at_separator_append[of r] nt show False by simp
    qed
  next
    case (Cons a p')
    show ?thesis
    proof
      assume "c # cs = p @ ''://'' @ r"
      with Cons have "cs = p' @ ''://'' @ r" by (simp only: append_Cons list.inject)
      with Cons.IH[OF n, of p'] show False by blast
    qed
  qed
qed

lemma contains_separator_iff:
  "(\<exists>p r. s = p @ ''://'' @ r) = (after_first_separator s \<noteq> None)"
  using after_first_separator_Some after_first_separator_None by (metis not_Some_eq)

text \<open>
  Every url the command line accepts contains \<open>://\<close>. The grammar is matched as a
  prefix only, so an accepted url may go on after a line feed.
\<close>

lemma url_regex_match_has_separator:
  assumes "url_regex_match s"
  shows "after_first_separator s \<noteq> None"
proof -
  from assms consider "take 7 s = ''http://''" | "take 8 s = ''https://''"
    unfolding url_regex_match_def by blast
  then have "\<exists>p r. s = p @ ''://'' @ r"
  proof cases
    case 1
    have "s = take 7 s @ drop 7 s" by simp
    with 1 have "s = ''http'' @ ''://'' @ drop 7 s" by simp
    then show ?thesis by blast
  next
    case 2
    have "s = take 8 s @ drop 8 s" by simp
    with 2 have "s = ''https'' @ ''://'' @ drop 8 s" by simp
    then show ?thesis by blast
  qed
  then show ?thesis by (rule contains_separator_iff[THEN iffD1])
qed

lemma accepted_url_without_slug:
  "url_regex_match ''http://ab.cd\<newline>x'' \<and>
   getSafeFilename ascii_word ''http://ab.cd\<newline>x'' = Inl AttributeError"
  by code_simp

text \<open>The shape of a slug: safe characters only, no underscore at either end.\<close>

lemma sub_suspicious_safe: "c \<in> set (sub_suspicious w s) \<Longrightarrow> safe_char w c"
  by (auto simp: sub_suspicious_def safe_char_def)

lemma strip_underscores_subset: "set (strip_underscores s) \<subseteq> set s"
proof
  fix c assume "c \<in> set (strip_underscores s)"
  then have "c \<in> set (dropWhile (\<lambda>c. c = CHR ''_'') (rev (dropWhile (\<lambda>c. c = CHR ''_'') s)))"
    by (simp add: strip_underscores_def)
  then have "c \<in> set (rev (dropWhile (\<lambda>c. c = CHR ''_'') s))" by (rule set_dropWhileD)
  then have "c \<in> set (dropWhile (\<lambda>c. c = CHR ''_'') s)" by simp
  then show "c \<in> set s" by (rule set_dropWhileD)
qed

lemma strip_both_ends:
  fixes P :: "'a \<Rightarrow> bool" and s :: "'a list"
  defines "xs \<equiv> rev (dropWhile P (rev (dropWhile P s)))"
  assumes ne: "xs \<noteq> []"
  shows "\<not> P (hd xs) \<and> \<not> P (last xs)"
proof -
  let ?d = "dropWhile P s"
  let ?e = "dropWhile P (rev ?d)"
  have xs: "xs = rev ?e" by (simp add: xs_def)
  with ne have ene: "?e \<noteq> []" by simp
  then have "\<not> P (hd ?e)" by (rule hd_dropWhile)
  moreover have "last xs = hd ?e" using ene xs by (simp add: last_rev)
  ultimately have l: "\<not> P (last xs)" by simp
  have dne: "?d \<noteq> []"
  proof
    assume "?d = []"
    then have "?e = []" by (simp only: rev.simps dropWhile.simps)
    with ene show False by simp
  qed
  then have hd: "\<not> P (hd ?d)" by (rule hd_dropWhile)
  have "rev ?d = takeWhile P (rev ?d) @ ?e" by simp
  then have "rev (rev ?d) = rev (takeWhile P (rev ?d) @ ?e)" by (rule arg_cong)
  then have "?d = rev ?e @ rev (takeWhile P (rev ?d))" by (simp only: rev_rev_ident rev_append)
  then have "hd ?d = hd (rev ?e @ rev (takeWhile P (rev ?d)))" by (rule arg_cong)
  also have "\<dots> = hd (rev ?e)"
  proof -
    from ene have "rev ?e \<noteq> []" by (simp only: rev_is_Nil_conv not_False_eq_True)
    then show ?thesis by (rule hd_append2)
  qed
  finally have "hd ?d = hd xs" using xs by simp
  with hd l show ?thesis by simp
qed

lemma strip_underscores_edges:
  "strip_underscores s \<noteq> [] \<Longrightarrow>
     hd (strip_underscores s) \<noteq> CHR ''_'' \<and> last (strip_underscores s) \<noteq> CHR ''_''"
  unfolding strip_underscores_def by (rule strip_both_ends)

lemma getSafeFilename_shape:
  assumes "getSafeFilename w s = Inr f"
  shows "list_all (safe_char w) f"
    and "f \<noteq> [] \<Longrightarrow> hd f \<noteq> CHR ''_'' \<and> last f \<noteq> CHR ''_''"
proof -
  from assms obtain g where f: "f = strip_underscores (sub_suspicious w g)"
    by (auto simp: getSafeFilename_def split: option.splits)
  have "set f \<subseteq> set (sub_suspicious w g)" unfolding f by (rule strip_underscores_subset)
  then show "list_all (safe_char w) f"
    using sub_suspicious_safe by (auto simp: list_all_iff)
  show "f \<noteq> [] \<Longrightarrow> hd f \<noteq> CHR ''_'' \<and> last f \<noteq> CHR ''_''"
    unfolding f by (rule strip_underscores_edges)
qed

text \<open>
  C10, as stated, fails: a string can contain \<open>://\<close> and still make \<open>getSafeFilename\<close>
  raise. After \<open>http://a\<close>, a line feed and \<open>b\<close>, the pattern \<open>://(.*)$\<close> has no match,
  and \<open>.group(1)\<close> is called on None.
\<close>

theorem getSafeFilename_not_total_with_separator:
  "\<not> (\<forall>s w. (\<exists>p r. s = p @ ''://'' @ r) \<longrightarrow> (\<exists>f. getSafeFilename w s = Inr f))"
proof
  assume a: "\<forall>s w. (\<exists>p r. s = p @ ''://'' @ r) \<longrightarrow> (\<exists>f. getSafeFilename w s = Inr f)"
  have "''http://a\<newline>b'' = ''http'' @ ''://'' @ ''a\<newline>b''" by simp
  then have "\<exists>p r. ''http://a\<newline>b'' = p @ ''://'' @ r" by blast
  with a have "\<exists>f. getSafeFilename ascii_word ''http://a\<newline>b'' = Inr f" by blast
  moreover have "getSafeFilename ascii_word ''http://a\<newline>b'' = Inl AttributeError"
    by code_simp
  ultimately show False by simp
qed

text \<open>
  C10, amended: for every string that contains \<open>://\<close> and has no line feed after the
  first \<open>://\<close>, \<open>getSafeFilename\<close> returns: it drops everything up to and including the
  first \<open>://\<close>, replaces every character outside the word characters, hyphen,
  underscore, dot and space by an underscore, and strips the underscores at both ends.
  For a string without \<open>://\<close> it raises AttributeError. Being a function of the string
  and of the table of word characters, the result is determined by them.
\<close>

theorem getSafeFilename_after_first_separator:
  "(after_first_separator s = None \<longrightarrow> getSafeFilename w s = Inl AttributeError) \<and>
   (\<forall>r. after_first_separator s = Some r \<and> newline \<notin> set r \<longrightarrow>
        getSafeFilename w s = Inr (strip_underscores (sub_suspicious w r)))"
proof (intro conjI impI allI)
  assume "after_first_separator s = None"
  then have "remove_protocol_search s = None" by (rule search_without_separator)
  then show "getSafeFilename w s = Inl AttributeError" by (simp add: getSafeFilename_def)
next
  fix r assume "after_first_separator s = Some r \<and> newline \<notin> set r"
  then have "remove_protocol_search s = Some r" by (simp add: search_at_first_separator)
  then show "getSafeFilename w s = Inr (strip_underscores (sub_suspicious w r))"
    by (simp add: getSafeFilename_def)
qed

theorem getSafeFilename_after_first_separator_witness:
  "after_first_separator ''http://example.com/a?b=c'' = Some ''example.com/a?b=c'' \<and>
   newline \<notin> set ''example.com/a?b=c'' \<and>
   getSafeFilename ascii_word ''http://example.com/a?b=c'' = Inr ''example.com_a_b_c'' \<and>
   after_first_separator ''example.com'' = None \<and>
   getSafeFilename ascii_word ''example.com'' = Inl AttributeError"
proof -
  have h1: "after_first_separator ''http://example.com/a?b=c'' = Some ''example.com/a?b=c''"
    by code_simp
  have h2: "newline \<notin> set ''example.com/a?b=c''" by code_simp
  have h3: "after_first_separator ''example.com'' = None" by code_simp
  have e: "strip_underscores (sub_suspicious ascii_word ''example.com/a?b=c'') = ''example.com_a_b_c''"
    by code_simp
  from getSafeFilename_after_first_separator[of "''http://example.com/a?b=c''" ascii_word] h1 h2
  have "getSafeFilename ascii_word ''http://example.com/a?b=c'' =
          Inr (strip_underscores (sub_suspicious ascii_word ''example.com/a?b=c''))"
    by blast
  with e have r1: "getSafeFilename ascii_word ''http://example.com/a?b=c'' = Inr ''example.com_a_b_c''"
    by simp
  from getSafeFilename_after_first_separator[of "''example.com''" ascii_word] h3
  have r2: "getSafeFilename ascii_word ''example.com'' = Inl AttributeError" by blast
  from h1 h2 r1 h3 r2 show ?thesis by blast
qed

section \<open>One poll of one page\<close>

lemma log_call_info [simp]: "log_call [''info'', m] [] lg = Inr (lg @ [(INFO, m)])"
  by (simp add: log_call_def level_of_name_def andThen_def)

lemma log_call_warning [simp]: "log_call [''warning'', m] [] lg = Inr (lg @ [(WARNING, m)])"
  by (simp add: log_call_def level_of_name_def andThen_def)

lemma andThen_Inr [simp]: "andThen (Inr x) f = f x"
  by (simp add: andThen_def)

lemma andThen_Inl [simp]: "andThen (Inl e) f = Inl e"
  by (simp add: andThen_def)

lemma clear_error_eq:
  "error st \<longrightarrow> error_description st \<noteq> None \<Longrightarrow>
   clear_error st lg =
     Inr (if error st then st\<lparr>error := False, error_description := None\<rparr> else st,
          if error st then lg @ [(INFO, ''Server is now responding, previously it was not'')] else lg)"
  by (auto simp: clear_error_def)

lemma on_failure_eq:
  "on_failure e st lg =
     Inr (st\<lparr>error := True, error_description := Some (description_of e)\<rparr>,
          lg @ [if error st then (INFO, ''Query is still erroring out. {}: {}, {}'')
                else (WARNING, ''Query erroring out! {}: {}, {}'')])"
  by (cases "error st") (simp_all add: on_failure_def)

lemma detect_failure_eq:
  assumes "extract_content re page (response p) = Inr (Inl e)"
  shows "detect re page p st lg =
     Inr (st\<lparr>error := True, error_description := Some (description_of e), last_check := timestamp p\<rparr>,
          None,
          lg @ [if error st then (INFO, ''Query is still erroring out. {}: {}, {}'')
                else (WARNING, ''Query erroring out! {}: {}, {}'')])"
  using assms by (simp add: detect_def on_failure_eq)

lemma detect_success_eq:
  assumes "extract_content re page (response p) = Inr (Inr fragments)"
      and "error st \<longrightarrow> error_description st \<noteq> None"
  shows "detect re page p st lg =
     (case diff_content fragments (browser_title p) (timestamp p)
             (if error st then st\<lparr>error := False, error_description := None\<rparr> else st) of
        (st', change) \<Rightarrow>
          Inr (st'\<lparr>last_check := timestamp p\<rparr>, change,
               if error st then lg @ [(INFO, ''Server is now responding, previously it was not'')] else lg))"
  using assms by (simp add: detect_def on_success_def clear_error_eq split: prod.splits)

text \<open>
  A state with \<open>error\<close> true and no \<open>error_description\<close> is one the program never
  writes; on it a successful fetch raises KeyError at the \<open>del\<close>.
\<close>

lemma detect_without_description_raises:
  assumes "extract_content re page (response p) = Inr (Inr fragments)"
      and "error st" and "error_description st = None"
  shows "detect re page p st lg = Inl KeyError"
  using assms by (simp add: detect_def on_success_def clear_error_def)

text \<open>
  C1: for every prior state and every successful fetch whose fragments form the same
  set as the prior content, in whatever order, the poll produces no ChangeRecord and
  leaves \<open>content\<close>, \<open>title\<close> and \<open>last_content_change\<close> as they were; \<open>last_check\<close> is
  updated. The step before the comparison clears \<open>error\<close> and \<open>error_description\<close> of
  a state that was erroring; nothing else changes: the new state is the prior one with
  that clearing and the new \<open>last_check\<close>. The prior state holds its
  \<open>error_description\<close> whenever \<open>error\<close> is true, as every state the program writes does.
\<close>

theorem detect_same_fragment_set:
  assumes "extract_content re page (response p) = Inr (Inr fragments)"
      and "set fragments = set (content st)"
      and "error st \<longrightarrow> error_description st \<noteq> None"
  shows "\<exists>st' lg'. detect re page p st lg = Inr (st', None, lg') \<and>
           content st' = content st \<and> title st' = title st \<and>
           last_content_change st' = last_content_change st \<and>
           state_url st' = state_url st \<and> domain st' = domain st \<and>
           last_check st' = timestamp p \<and>
           st' = (if error st then st\<lparr>error := False, error_description := None\<rparr> else st)
                   \<lparr>last_check := timestamp p\<rparr> \<and>
           lg' = (if error st
                  then lg @ [(INFO, ''Server is now responding, previously it was not'')]
                  else lg)"
proof -
  let ?st = "if error st then st\<lparr>error := False, error_description := None\<rparr> else st"
  let ?lg = "if error st then lg @ [(INFO, ''Server is now responding, previously it was not'')]
             else lg"
  from assms(2) have "set (content ?st) = set fragments" by simp
  then have "diff_content fragments (browser_title p) (timestamp p) ?st = (?st, None)"
    by (simp add: diff_content_def)
  with detect_success_eq[OF assms(1) assms(3), of lg]
  have d: "detect re page p st lg = Inr (?st\<lparr>last_check := timestamp p\<rparr>, None, ?lg)"
    by simp
  have f: "content (?st\<lparr>last_check := timestamp p\<rparr>) = content st"
          "title (?st\<lparr>last_check := timestamp p\<rparr>) = title st"
          "last_content_change (?st\<lparr>last_check := timestamp p\<rparr>) = last_content_change st"
          "state_url (?st\<lparr>last_check := timestamp p\<rparr>) = state_url st"
          "domain (?st\<lparr>last_check := timestamp p\<rparr>) = domain st"
          "last_check (?st\<lparr>last_check := timestamp p\<rparr>) = timestamp p"
    by simp_all
  from d f show ?thesis by blast
qed

text \<open>
  C2: for every prior state and every successful fetch whose fragment set differs from
  the prior content's set, the ChangeRecord has \<open>added\<close> equal to the new set minus the
  old one and \<open>removed\<close> equal to the old set minus the new one, the two are disjoint,
  \<open>content\<close>, \<open>title\<close> and \<open>last_content_change\<close> are updated, and the stored content is the
  fetch's fragment list in its own order.
\<close>

theorem detect_changed_fragment_set:
  assumes "extract_content re page (response p) = Inr (Inr fragments)"
      and "set fragments \<noteq> set (content st)"
      and "error st \<longrightarrow> error_description st \<noteq> None"
  shows "\<exists>st' c lg'. detect re page p st lg = Inr (st', Some c, lg') \<and>
           added c = set fragments - set (content st) \<and>
           removed c = set (content st) - set fragments \<and>
           added c \<inter> removed c = {} \<and>
           content st' = fragments \<and> title st' = browser_title p \<and>
           last_content_change st' = timestamp p \<and> last_check st' = timestamp p"
proof -
  let ?st = "if error st then st\<lparr>error := False, error_description := None\<rparr> else st"
  let ?c = "\<lparr>added = {i \<in> set fragments. i \<notin> set (content st)},
             removed = {i \<in> set (content st). i \<notin> set fragments},
             change_title = browser_title p, change_url = state_url st,
             change_domain = domain st\<rparr>"
  let ?st' = "?st\<lparr>content := fragments, title := browser_title p,
                  last_content_change := timestamp p\<rparr>"
  from assms(2) have ne: "set (content ?st) \<noteq> set fragments" by auto
  have "diff_content fragments (browser_title p) (timestamp p) ?st = (?st', Some ?c)"
    using ne by (cases "error st") (simp_all add: diff_content_def Let_def)
  with detect_success_eq[OF assms(1) assms(3), of lg]
  have d: "detect re page p st lg =
             Inr (?st'\<lparr>last_check := timestamp p\<rparr>, Some ?c,
                  if error st then lg @ [(INFO, ''Server is now responding, previously it was not'')]
                  else lg)"
    by simp
  have a: "added ?c = set fragments - set (content st)" by auto
  have r: "removed ?c = set (content st) - set fragments" by auto
  have i: "added ?c \<inter> removed ?c = {}" by auto
  have f: "content (?st'\<lparr>last_check := timestamp p\<rparr>) = fragments"
          "title (?st'\<lparr>last_check := timestamp p\<rparr>) = browser_title p"
          "last_content_change (?st'\<lparr>last_check := timestamp p\<rparr>) = timestamp p"
          "last_check (?st'\<lparr>last_check := timestamp p\<rparr>) = timestamp p"
    by simp_all
  from d a r i f show ?thesis by blast
qed

text \<open>
  C5: after a failing fetch the state has \<open>error\<close> true; a second failing fetch is
  logged at INFO only (no WARNING entry is added) and leaves \<open>error\<close> true; a successful
  fetch after the failing one leaves \<open>error\<close> false and \<open>error_description\<close> absent.
\<close>

theorem error_hysteresis:
  assumes "extract_content re page (response p1) = Inr (Inl e1)"
  shows "\<exists>st1 lg1. detect re page p1 st lg = Inr (st1, None, lg1) \<and> error st1 \<and>
           (\<forall>p2 e2. extract_content re page (response p2) = Inr (Inl e2) \<longrightarrow>
              (\<exists>st2. detect re page p2 st1 lg1 =
                        Inr (st2, None, lg1 @ [(INFO, ''Query is still erroring out. {}: {}, {}'')])
                     \<and> error st2)) \<and>
           (\<forall>p2 fragments. extract_content re page (response p2) = Inr (Inr fragments) \<longrightarrow>
              (\<exists>st2 change lg2. detect re page p2 st1 lg1 = Inr (st2, change, lg2)
                     \<and> \<not> error st2 \<and> error_description st2 = None))"
proof -
  let ?st1 = "st\<lparr>error := True, error_description := Some (description_of e1),
                 last_check := timestamp p1\<rparr>"
  let ?lg1 = "lg @ [if error st then (INFO, ''Query is still erroring out. {}: {}, {}'')
                    else (WARNING, ''Query erroring out! {}: {}, {}'')]"
  have d1: "detect re page p1 st lg = Inr (?st1, None, ?lg1)"
    using assms by (rule detect_failure_eq)
  have e1: "error ?st1" by simp
  have again: "\<exists>st2. detect re page p2 ?st1 ?lg1 =
                        Inr (st2, None, ?lg1 @ [(INFO, ''Query is still erroring out. {}: {}, {}'')])
                     \<and> error st2"
    if "extract_content re page (response p2) = Inr (Inl e2)" for p2 e2
    using detect_failure_eq[OF that, of ?st1 ?lg1] by simp
  have recover: "\<exists>st2 change lg2. detect re page p2 ?st1 ?lg1 = Inr (st2, change, lg2)
                     \<and> \<not> error st2 \<and> error_description st2 = None"
    if "extract_content re page (response p2) = Inr (Inr fragments)" for p2 fragments
  proof -
    have wf: "error ?st1 \<longrightarrow> error_description ?st1 \<noteq> None" by simp
    show ?thesis
      using detect_success_eq[OF that wf, of ?lg1]
      by (auto simp: diff_content_def Let_def split: if_splits)
  qed
  from d1 e1 again recover show ?thesis by blast
qed

text \<open>
  C9: when the selector's text is empty and the page has no pattern, and when the page
  has a pattern that does not match the text, the poll is a failure: \<open>error\<close> is set,
  the description is the no-match one, the content is untouched and no ChangeRecord is
  produced.
\<close>

theorem no_usable_text_is_failure:
  assumes "response p = Inr text"
      and "(regex page = None \<and> text = []) \<or> (\<exists>r. regex page = Some r \<and> re r text = NoMatch)"
  shows "detect re page p st lg =
           Inr (st\<lparr>error := True,
                    error_description := Some ''couldn't find what we were looking for'',
                    last_check := timestamp p\<rparr>,
                None,
                lg @ [if error st then (INFO, ''Query is still erroring out. {}: {}, {}'')
                      else (WARNING, ''Query erroring out! {}: {}, {}'')])"
proof -
  from assms have "extract_content re page (response p) = Inr (Inl LookupError)"
    by (auto simp: extract_content_def)
  from detect_failure_eq[OF this, of st lg] show ?thesis by simp
qed

text \<open>
  The hypothesis on the prior state holds of every state the program writes: of the
  defaults and of every state a poll returns.
\<close>

lemma default_file_data_description:
  "default_file_data page = Inr st \<Longrightarrow> \<not> error st \<and> error_description st = None"
  by (auto simp: default_file_data_def split: option.splits)

lemma detect_keeps_description:
  assumes "detect re page p st lg = Inr (st', change, lg')"
  shows "error st' \<longrightarrow> error_description st' \<noteq> None"
proof (cases "extract_content re page (response p)")
  case (Inl e)
  with assms show ?thesis by (simp add: detect_def)
next
  case (Inr r)
  show ?thesis
  proof (cases r)
    case (Inl e)
    with Inr have "extract_content re page (response p) = Inr (Inl e)" by simp
    from detect_failure_eq[OF this, of st lg] assms show ?thesis by auto
  next
    case r: (Inr fragments)
    with Inr assms show ?thesis
      by (auto simp: detect_def on_success_def clear_error_def diff_content_def Let_def
               split: if_splits option.splits)
  qed
qed

theorem detect_same_fragment_set_witness:
  "extract_content two_groups two_group_page (response (text_poll 200 ''v0v1''))
     = Inr (Inr [Some ''v0'', Some ''v1'']) \<and>
   content stable_state = [Some ''v1'', Some ''v0''] \<and>
   set [Some ''v0'', Some ''v1''] = set (content stable_state) \<and>
   \<not> error stable_state \<and>
   detect two_groups two_group_page (text_poll 200 ''v0v1'') stable_state []
     = Inr (stable_state\<lparr>last_check := 200\<rparr>, None, [])"
proof -
  have h1: "extract_content two_groups two_group_page (response (text_poll 200 ''v0v1''))
              = Inr (Inr [Some ''v0'', Some ''v1''])"
    by (simp add: extract_content_def two_groups_def two_group_page_def text_poll_def)
  have c: "content stable_state = [Some ''v1'', Some ''v0'']" by (simp add: stable_state_def)
  have h2: "set [Some ''v0'', Some ''v1''] = set (content stable_state)"
    unfolding c by auto
  have h3: "\<not> error stable_state" by (simp add: stable_state_def)
  then have h3': "error stable_state \<longrightarrow> error_description stable_state \<noteq> None" by simp
  have ts: "timestamp (text_poll 200 ''v0v1'') = 200" by (simp add: text_poll_def)
  from detect_same_fragment_set[OF h1 h2 h3', of "[]"] h3 ts
  have "detect two_groups two_group_page (text_poll 200 ''v0v1'') stable_state []
          = Inr (stable_state\<lparr>last_check := 200\<rparr>, None, [])"
    by auto
  with h1 c h2 h3 show ?thesis by blast
qed

text \<open>
  The same poll on a state that was erroring: the fragments are the same set, no
  ChangeRecord is produced, and the error is cleared.
\<close>

lemma detect_same_set_after_error:
  "detect two_groups two_group_page (text_poll 200 ''v0v1'') erroring_state []
     = Inr (erroring_state\<lparr>error := False, error_description := None, last_check := 200\<rparr>,
            None, [(INFO, ''Server is now responding, previously it was not'')])"
proof -
  have h1: "extract_content two_groups two_group_page (response (text_poll 200 ''v0v1''))
              = Inr (Inr [Some ''v0'', Some ''v1''])"
    by (simp add: extract_content_def two_groups_def two_group_page_def text_poll_def)
  have h2: "set [Some ''v0'', Some ''v1''] = set (content erroring_state)"
    by (auto simp: erroring_state_def stable_state_def)
  have h3: "error erroring_state" "error_description erroring_state \<noteq> None"
    by (simp_all add: erroring_state_def)
  have ts: "timestamp (text_poll 200 ''v0v1'') = 200" by (simp add: text_poll_def)
  show ?thesis
    using h1 h2 h3 ts
    by (simp add: detect_def on_success_def clear_error_def diff_content_def
             split: option.splits)
qed

theorem detect_changed_fragment_set_witness:
  "extract_content never_matches example_page (response (text_poll 200 ''v2''))
     = Inr (Inr [Some ''v2'']) \<and>
   set [Some ''v2''] \<noteq> set (content stable_state) \<and>
   \<not> error stable_state \<and>
   (\<exists>st' c lg'. detect never_matches example_page (text_poll 200 ''v2'') stable_state []
                   = Inr (st', Some c, lg') \<and>
        added c = {Some ''v2''} \<and> removed c = {Some ''v1'', Some ''v0''} \<and>
        content st' = [Some ''v2''] \<and> title st' = ''T2'' \<and> last_content_change st' = 200)"
proof -
  have h1: "extract_content never_matches example_page (response (text_poll 200 ''v2''))
              = Inr (Inr [Some ''v2''])"
    by (simp add: extract_content_def example_page_def text_poll_def)
  have c: "set (content stable_state) = {Some ''v1'', Some ''v0''}"
    by (simp add: stable_state_def)
  have h2: "set [Some ''v2''] \<noteq> set (content stable_state)"
    unfolding c by auto
  have h3: "\<not> error stable_state" by (simp add: stable_state_def)
  then have h3': "error stable_state \<longrightarrow> error_description stable_state \<noteq> None" by simp
  have p: "timestamp (text_poll 200 ''v2'') = 200" "browser_title (text_poll 200 ''v2'') = ''T2''"
    by (simp_all add: text_poll_def)
  have s: "set [Some ''v2''] - {Some ''v1'', Some ''v0''} = {Some ''v2''}"
          "{Some ''v1'', Some ''v0''} - set [Some ''v2''] = {Some ''v1'', Some ''v0''}"
    by auto
  from detect_changed_fragment_set[OF h1 h2 h3', of "[]"]
  obtain st' ch lg' where
    "detect never_matches example_page (text_poll 200 ''v2'') stable_state [] = Inr (st', Some ch, lg')"
    "added ch = set [Some ''v2''] - set (content stable_state)"
    "removed ch = set (content stable_state) - set [Some ''v2'']"
    "content st' = [Some ''v2'']" "title st' = browser_title (text_poll 200 ''v2'')"
    "last_content_change st' = timestamp (text_poll 200 ''v2'')"
    by blast
  then have "detect never_matches example_page (text_poll 200 ''v2'') stable_state []
                   = Inr (st', Some ch, lg') \<and>
        added ch = {Some ''v2''} \<and> removed ch = {Some ''v1'', Some ''v0''} \<and>
        content st' = [Some ''v2''] \<and> title st' = ''T2'' \<and> last_content_change st' = 200"
    unfolding c p s by simp
  then have "\<exists>st' c lg'. detect never_matches example_page (text_poll 200 ''v2'') stable_state []
                   = Inr (st', Some c, lg') \<and>
        added c = {Some ''v2''} \<and> removed c = {Some ''v1'', Some ''v0''} \<and>
        content st' = [Some ''v2''] \<and> title st' = ''T2'' \<and> last_content_change st' = 200"
    by blast
  with h1 h2 h3 show ?thesis by blast
qed

theorem error_hysteresis_witness:
  "extract_content never_matches example_page (response (failing_poll 100 NoSuchElementException))
     = Inr (Inl (Fetch NoSuchElementException)) \<and>
   (\<exists>st1 lg1.
      detect never_matches example_page (failing_poll 100 NoSuchElementException) stable_state []
        = Inr (st1, None, lg1) \<and> error st1 \<and>
      (\<exists>st2. detect never_matches example_page (failing_poll 200 WebDriverException) st1 lg1
                = Inr (st2, None, lg1 @ [(INFO, ''Query is still erroring out. {}: {}, {}'')])
              \<and> error st2) \<and>
      (\<exists>st2 change lg2. detect never_matches example_page (text_poll 200 ''v1'') st1 lg1
                = Inr (st2, change, lg2) \<and> \<not> error st2 \<and> error_description st2 = None))"
proof -
  have h1: "extract_content never_matches example_page
              (response (failing_poll 100 NoSuchElementException))
              = Inr (Inl (Fetch NoSuchElementException))"
    by (simp add: extract_content_def failing_poll_def)
  have h2: "extract_content never_matches example_page
              (response (failing_poll 200 WebDriverException))
              = Inr (Inl (Fetch WebDriverException))"
    by (simp add: extract_content_def failing_poll_def)
  have h3: "extract_content never_matches example_page (response (text_poll 200 ''v1''))
              = Inr (Inr [Some ''v1''])"
    by (simp add: extract_content_def example_page_def text_poll_def)
  from error_hysteresis[OF h1, of stable_state "[]"] h2 h3
  have "\<exists>st1 lg1.
      detect never_matches example_page (failing_poll 100 NoSuchElementException) stable_state []
        = Inr (st1, None, lg1) \<and> error st1 \<and>
      (\<exists>st2. detect never_matches example_page (failing_poll 200 WebDriverException) st1 lg1
                = Inr (st2, None, lg1 @ [(INFO, ''Query is still erroring out. {}: {}, {}'')])
              \<and> error st2) \<and>
      (\<exists>st2 change lg2. detect never_matches example_page (text_poll 200 ''v1'') st1 lg1
                = Inr (st2, change, lg2) \<and> \<not> error st2 \<and> error_description st2 = None)"
    by blast
  with h1 show ?thesis by blast
qed

theorem no_usable_text_is_failure_witness:
  "response (text_poll 200 []) = Inr [] \<and> regex example_page = None \<and>
   detect never_matches example_page (text_poll 200 []) stable_state []
     = Inr (stable_state\<lparr>error := True,
              error_description := Some ''couldn't find what we were looking for'',
              last_check := 200\<rparr>,
            None, [(WARNING, ''Query erroring out! {}: {}, {}'')]) \<and>
   response (text_poll 200 ''w1'') = Inr ''w1'' \<and> regex pattern_page = Some ''v(.)'' \<and>
   never_matches ''v(.)'' ''w1'' = NoMatch \<and>
   detect never_matches pattern_page (text_poll 200 ''w1'') erroring_state []
     = Inr (erroring_state\<lparr>error := True,
              error_description := Some ''couldn't find what we were looking for'',
              last_check := 200\<rparr>,
            None, [(INFO, ''Query is still erroring out. {}: {}, {}'')])"
proof -
  have a1: "response (text_poll 200 []) = Inr []" by (simp add: text_poll_def)
  have a2: "regex example_page = None" by (simp add: example_page_def)
  have b1: "response (text_poll 200 ''w1'') = Inr ''w1''" by (simp add: text_poll_def)
  have b2: "regex pattern_page = Some ''v(.)''" by (simp add: pattern_page_def)
  have b3: "never_matches ''v(.)'' ''w1'' = NoMatch" by (simp add: never_matches_def)
  have e: "\<not> error stable_state" "error erroring_state"
    by (simp_all add: stable_state_def erroring_state_def)
  have ts: "timestamp (text_poll 200 []) = 200" "timestamp (text_poll 200 ''w1'') = 200"
    by (simp_all add: text_poll_def)
  from a2 have a: "(regex example_page = None \<and> [] = ([]::string))
                   \<or> (\<exists>r. regex example_page = Some r \<and> never_matches r [] = NoMatch)"
    by simp
  from b2 b3 have b: "(regex pattern_page = None \<and> ''w1'' = [])
                   \<or> (\<exists>r. regex pattern_page = Some r \<and> never_matches r ''w1'' = NoMatch)"
    by simp
  from no_usable_text_is_failure[where re = never_matches and st = stable_state and lg = "[]", OF a1 a] e ts
  have r1: "detect never_matches example_page (text_poll 200 []) stable_state []
     = Inr (stable_state\<lparr>error := True,
              error_description := Some ''couldn't find what we were looking for'',
              last_check := 200\<rparr>,
            None, [(WARNING, ''Query erroring out! {}: {}, {}'')])"
    by simp
  from no_usable_text_is_failure[where re = never_matches and st = erroring_state and lg = "[]", OF b1 b] e ts
  have r2: "detect never_matches pattern_page (text_poll 200 ''w1'') erroring_state []
     = Inr (erroring_state\<lparr>error := True,
              error_description := Some ''couldn't find what we were looking for'',
              last_check := 200\<rparr>,
            None, [(INFO, ''Query is still erroring out. {}: {}, {}'')])"
    by simp
  from a1 a2 r1 b1 b2 b3 r2 show ?thesis by blast
qed

section \<open>The configuration\<close>

lemma map_of_dict_set:
  "map_of (dict_set k v d) k' = (if k' = k then Some v else map_of d k')"
  by (induction d) auto

lemma merge_keys_no_override:
  "list_all (\<lambda>k. map_of fileConf k \<noteq> None) ks \<Longrightarrow>
   \<exists>conf'. merge_keys [] ks (conf, fileConf, urls) = Inr (conf', fileConf, urls) \<and>
     (\<forall>k. map_of conf' k = (if k \<in> set ks then map_of fileConf k else map_of conf k))"
proof (induction ks arbitrary: conf)
  case Nil
  then show ?case by simp
next
  case (Cons k ks)
  from Cons.prems obtain v where v: "map_of fileConf k = Some v" by auto
  from Cons.prems have "list_all (\<lambda>k. map_of fileConf k \<noteq> None) ks" by simp
  from Cons.IH[OF this, of "dict_set k v conf"]
  obtain conf' where c: "merge_keys [] ks (dict_set k v conf, fileConf, urls) = Inr (conf', fileConf, urls)"
    and m: "\<forall>k'. map_of conf' k' = (if k' \<in> set ks then map_of fileConf k' else map_of (dict_set k v conf) k')"
    by blast
  from v c have "merge_keys [] (k # ks) (conf, fileConf, urls) = Inr (conf', fileConf, urls)"
    by simp
  moreover from m v have "\<forall>k'. map_of conf' k' = (if k' \<in> set (k # ks) then map_of fileConf k' else map_of conf k')"
    by (auto simp: map_of_dict_set)
  ultimately show ?case by blast
qed

lemma keys_of_dict: "list_all (\<lambda>k. map_of d k \<noteq> None) (map fst d)"
  by (induction d) (auto simp: list_all_iff)

lemma resolve_data_dir_other:
  "k \<noteq> ''data_dir'' \<Longrightarrow> map_of (resolve_data_dir env conf) k = map_of conf k"
  by (simp add: resolve_data_dir_def map_of_dict_set)

text \<open>
  C7: when the command line sets nothing (\<open>setParams\<close> is empty) and the stored file
  holds a page list, as the serialized form of every MergedConfig does, the merge gives
  that page list back, same entries in the same order, and records no added url.
\<close>

theorem merge_without_override_keeps_pages:
  assumes "map_of (resolve_config_file env cli) ''config_file'' = Some (VStr path)"
      and "read_config env path = Some stored"
      and "map_of stored ''pages'' = Some v"
  shows "\<exists>conf'. getConfig env cli [] = Inr (conf', [], False, []) \<and>
                 map_of conf' ''pages'' = Some v"
proof -
  from merge_keys_no_override[OF keys_of_dict, of stored "resolve_config_file env cli" "[]"]
  obtain conf2 where
    m: "merge_keys [] (map fst stored) (resolve_config_file env cli, stored, []) = Inr (conf2, stored, [])"
    and l: "\<forall>k. map_of conf2 k = (if k \<in> set (map fst stored) then map_of stored k
                                   else map_of (resolve_config_file env cli) k)"
    by blast
  from assms(3) have "''pages'' \<in> set (map fst stored)"
    by (metis map_of_eq_None_iff option.distinct(1) set_map)
  with l assms(3) have "map_of conf2 ''pages'' = Some v" by simp
  then have p: "map_of (resolve_data_dir env conf2) ''pages'' = Some v"
    by (simp add: resolve_data_dir_other)
  from assms(1,2) m have "getConfig env cli [] = Inr (resolve_data_dir env conf2, [], False, [])"
    by (simp add: getConfig_def Let_def)
  with p show ?thesis by blast
qed



lemma merge_list_appends:
  "merge_list k mine (stored, urls) = Inr (stored', urls') \<Longrightarrow>
     \<exists>new. stored' = stored @ new \<and> set new \<subseteq> set mine \<and> set new \<inter> set stored = {}
           \<and> distinct new
           \<and> (if k = ''pages'' then urls' = urls @ map url [p. IPage p \<leftarrow> new] else urls' = urls)"
proof (induction mine arbitrary: stored urls)
  case Nil
  then show ?case by simp
next
  case (Cons i rest)
  show ?case
  proof (cases "i \<in> set stored")
    case True
    with Cons.prems have "merge_list k rest (stored, urls) = Inr (stored', urls')" by simp
    from Cons.IH[OF this] show ?thesis by auto
  next
    case False
    show ?thesis
    proof (cases "k = ''pages''")
      case k: True
      with False Cons.prems obtain p where i: "i = IPage p"
        and r: "merge_list k rest (stored @ [i], urls @ [url p]) = Inr (stored', urls')"
        by (cases i) auto
      from Cons.IH[OF r] k obtain new where
        n: "stored' = (stored @ [i]) @ new" "set new \<subseteq> set rest"
           "set new \<inter> set (stored @ [i]) = {}" "distinct new"
           "urls' = (urls @ [url p]) @ map url [p. IPage p \<leftarrow> new]"
        by auto
      let ?new = "i # new"
      from n False i k have "stored' = stored @ ?new \<and> set ?new \<subseteq> set (i # rest)
           \<and> set ?new \<inter> set stored = {} \<and> distinct ?new
           \<and> (if k = ''pages'' then urls' = urls @ map url [p. IPage p \<leftarrow> ?new] else urls' = urls)"
        by auto
      then show ?thesis by blast
    next
      case k: False
      with False Cons.prems have r: "merge_list k rest (stored @ [i], urls) = Inr (stored', urls')"
        by simp
      from Cons.IH[OF r] k obtain new where
        n: "stored' = (stored @ [i]) @ new" "set new \<subseteq> set rest"
           "set new \<inter> set (stored @ [i]) = {}" "distinct new" "urls' = urls"
        by auto
      let ?new = "i # new"
      from n False k have "stored' = stored @ ?new \<and> set ?new \<subseteq> set (i # rest)
           \<and> set ?new \<inter> set stored = {} \<and> distinct ?new
           \<and> (if k = ''pages'' then urls' = urls @ map url [p. IPage p \<leftarrow> ?new] else urls' = urls)"
        by auto
      then show ?thesis by blast
    qed
  qed
qed

text \<open>
  C6 fails on the code. The merge compares whole entries: a page of the command line
  that has the url of a stored page and another selector or pattern is appended, and
  the page list then holds that url twice.
\<close>

theorem merge_appends_page_with_stored_url:
  assumes "IPage p \<in> set stored" and "url q = url p" and "IPage q \<notin> set stored"
  shows "merge_list ''pages'' [IPage q] (stored, urls) = Inr (stored @ [IPage q], urls @ [url q]) \<and>
         \<not> distinct (map url [p. IPage p \<leftarrow> stored @ [IPage q]])"
proof -
  from assms(3) have m: "merge_list ''pages'' [IPage q] (stored, urls)
                           = Inr (stored @ [IPage q], urls @ [url q])"
    by simp
  from assms(1) have "p \<in> set [p. IPage p \<leftarrow> stored]" by auto
  then have "url q \<in> set (map url [p. IPage p \<leftarrow> stored])" using assms(2) by force
  then have "\<not> distinct (map url [p. IPage p \<leftarrow> stored] @ [url q])" by simp
  then have "\<not> distinct (map url [p. IPage p \<leftarrow> stored @ [IPage q]])" by simp
  with m show ?thesis by blast
qed

lemma parse_page_args_other:
  "parse_page_args env a (c, s) = Inr (c', s') \<Longrightarrow> k \<noteq> ''pages'' \<Longrightarrow> map_of c' k = map_of c k"
  by (auto simp: parse_page_args_def andThen_def map_of_dict_set
           split: option.splits list.splits sum.splits)

lemma parse_browser_other:
  "k \<noteq> ''browser'' \<Longrightarrow> map_of (fst (parse_browser a cs)) k = map_of (fst cs) k"
  by (cases cs) (simp add: parse_browser_def map_of_dict_set)

lemma parse_use_xvfb_other:
  "k \<noteq> ''use_xvfb'' \<Longrightarrow> map_of (fst (parse_use_xvfb a cs)) k = map_of (fst cs) k"
  by (cases cs) (simp add: parse_use_xvfb_def map_of_dict_set)

lemma parse_event_list_other:
  "parse_event_list a cs = Inr cs' \<Longrightarrow> k \<noteq> ''event_list'' \<Longrightarrow>
     map_of (fst cs') k = map_of (fst cs) k"
  by (cases cs) (auto simp: parse_event_list_def map_of_dict_set
                      split: option.splits list.splits if_splits)

lemma parse_log_path_other:
  "k \<noteq> ''log_path'' \<Longrightarrow> map_of (fst (parse_log_path env a cs)) k = map_of (fst cs) k"
  by (cases cs) (simp add: parse_log_path_def map_of_dict_set)

lemma parse_config_file_map:
  "map_of (fst (parse_config_file a cs)) k =
     (if truthy (args_config_file a) \<and> k = ''data_dir''
      then Some (VStr (the (args_config_file a))) else map_of (fst cs) k)"
  by (cases cs) (simp add: parse_config_file_def map_of_dict_set)

lemma parse_data_dir_map:
  "map_of (fst (parse_data_dir a cs)) k =
     (if truthy (args_data_dir a) \<and> k = ''data_dir''
      then Some (VStr (the (args_data_dir a))) else map_of (fst cs) k)"
  by (cases cs) (simp add: parse_data_dir_def map_of_dict_set)

lemma parseArgs_steps:
  assumes "parseArgs penv a = Inr (argConf, whatToDo, setParams)"
  obtains c1 s1 cs2 where
    "parse_page_args penv a
       (dict_set ''verbosity'' (VInt (verbosity_of a)) [(''pages'', VList [])], []) = Inr (c1, s1)"
    "parse_event_list a (parse_use_xvfb a (parse_browser a (c1, s1))) = Inr cs2"
    "argConf = fst (parse_data_dir a (parse_config_file a (parse_log_path penv a cs2)))"
  using assms
  by (auto simp: parseArgs_def andThen_def split: sum.splits prod.splits if_splits)

text \<open>
  C8 fails on the code. Whatever the command line, the \<open>conf\<close> that \<open>parseArgs\<close> returns
  has no key \<open>config_file\<close>, so \<open>getConfig\<close> always takes the guessed path; a path given
  with \<open>--config-file\<close> ends up under \<open>data_dir\<close> (line 300), unless \<open>--data-dir\<close>
  overwrites it.
\<close>

theorem config_file_option_is_ignored:
  assumes "parseArgs penv a = Inr (argConf, whatToDo, setParams)"
  shows "map_of argConf ''config_file'' = None \<and>
         map_of (resolve_config_file cenv argConf) ''config_file''
           = Some (VStr (guessed_config_file cenv)) \<and>
         (truthy (args_config_file a) \<and> \<not> truthy (args_data_dir a) \<longrightarrow>
            map_of argConf ''data_dir'' = Some (VStr (the (args_config_file a))))"
proof -
  from assms obtain c1 s1 cs2 where
    1: "parse_page_args penv a
          (dict_set ''verbosity'' (VInt (verbosity_of a)) [(''pages'', VList [])], []) = Inr (c1, s1)"
    and 2: "parse_event_list a (parse_use_xvfb a (parse_browser a (c1, s1))) = Inr cs2"
    and 3: "argConf = fst (parse_data_dir a (parse_config_file a (parse_log_path penv a cs2)))"
    by (rule parseArgs_steps)
  have "map_of c1 ''config_file''
          = map_of (dict_set ''verbosity'' (VInt (verbosity_of a)) [(''pages'', VList [])]) ''config_file''"
    using parse_page_args_other[OF 1, of "''config_file''"] by simp
  then have c1: "map_of c1 ''config_file'' = None" by (simp add: map_of_dict_set)
  have "map_of (fst cs2) ''config_file''
          = map_of (fst (parse_use_xvfb a (parse_browser a (c1, s1)))) ''config_file''"
    using parse_event_list_other[OF 2, of "''config_file''"] by simp
  with c1 have c2: "map_of (fst cs2) ''config_file'' = None"
    by (simp add: parse_use_xvfb_other parse_browser_other)
  have none: "map_of argConf ''config_file'' = None"
    unfolding 3 using c2
    by (simp add: parse_data_dir_map parse_config_file_map parse_log_path_other)
  then have guess: "map_of (resolve_config_file cenv argConf) ''config_file''
                      = Some (VStr (guessed_config_file cenv))"
    by (simp add: resolve_config_file_def map_of_dict_set)
  have dd: "truthy (args_config_file a) \<and> \<not> truthy (args_data_dir a) \<longrightarrow>
            map_of argConf ''data_dir'' = Some (VStr (the (args_config_file a)))"
    unfolding 3 by (simp add: parse_data_dir_map parse_config_file_map)
  from none guess dd show ?thesis by blast
qed



theorem merge_without_override_keeps_pages_witness:
  "map_of (resolve_config_file default_config_env [(''pages'', VList [])]) ''config_file''
     = Some (VStr ''/home/u/.config/change-poller/config'') \<and>
   read_config default_config_env ''/home/u/.config/change-poller/config'' = Some stored_config \<and>
   map_of stored_config ''pages''
     = Some (VList [IPage example_page,
                    IPage \<lparr>url = ''https://example.com'', selector = ''p'', regex = None\<rparr>]) \<and>
   (\<exists>conf'. getConfig default_config_env [(''pages'', VList [])] [] = Inr (conf', [], False, []) \<and>
      map_of conf' ''pages''
        = Some (VList [IPage example_page,
                       IPage \<lparr>url = ''https://example.com'', selector = ''p'', regex = None\<rparr>]))"
proof -
  have h1: "map_of (resolve_config_file default_config_env [(''pages'', VList [])]) ''config_file''
              = Some (VStr ''/home/u/.config/change-poller/config'')"
    by code_simp
  have h2: "read_config default_config_env ''/home/u/.config/change-poller/config''
              = Some stored_config"
    by (simp add: default_config_env_def)
  have h3: "map_of stored_config ''pages''
     = Some (VList [IPage example_page,
                    IPage \<lparr>url = ''https://example.com'', selector = ''p'', regex = None\<rparr>])"
    by (simp add: stored_config_def)
  from merge_without_override_keeps_pages[OF h1 h2 h3] h1 h2 h3 show ?thesis by blast
qed

theorem merge_appends_page_with_stored_url_witness:
  "IPage example_page \<in> set [IPage example_page] \<and>
   url \<lparr>url = ''http://ab.cd/x'', selector = ''h2'', regex = None\<rparr> = url example_page \<and>
   IPage \<lparr>url = ''http://ab.cd/x'', selector = ''h2'', regex = None\<rparr> \<notin> set [IPage example_page] \<and>
   merge_list ''pages'' [IPage \<lparr>url = ''http://ab.cd/x'', selector = ''h2'', regex = None\<rparr>]
       ([IPage example_page], [])
     = Inr ([IPage example_page,
             IPage \<lparr>url = ''http://ab.cd/x'', selector = ''h2'', regex = None\<rparr>],
            [''http://ab.cd/x''])"
proof -
  let ?q = "\<lparr>url = ''http://ab.cd/x'', selector = ''h2'', regex = None\<rparr>"
  have h1: "IPage example_page \<in> set [IPage example_page]" by simp
  have h2: "url ?q = url example_page" by (simp add: example_page_def)
  have h3: "IPage ?q \<notin> set [IPage example_page]" by (simp add: example_page_def)
  from merge_appends_page_with_stored_url[OF h1 h2 h3, of "[]"]
  have "merge_list ''pages'' [IPage ?q] ([IPage example_page], [])
          = Inr ([IPage example_page, IPage ?q], [''http://ab.cd/x''])"
    by simp
  with h1 h2 h3 show ?thesis by blast
qed

text \<open>
  The same through \<open>getConfig\<close>: the stored file lists \<open>http://ab.cd/x\<close> with the selector
  \<open>h1\<close>, the command line gives it with \<open>h2\<close>.
\<close>

lemma getConfig_same_url_twice:
  "getConfig default_config_env other_selector_conf [''pages'', ''pages'']
     = Inr ([(''pages'', VList [IPage example_page,
                         IPage \<lparr>url = ''https://example.com'', selector = ''p'', regex = None\<rparr>,
                         IPage \<lparr>url = ''http://ab.cd/x'', selector = ''h2'', regex = None\<rparr>]),
             (''config_file'', VStr ''/home/u/.config/change-poller/config''),
             (''data_dir'', VStr ''/var/poller'')],
            [''http://ab.cd/x''], False, [])"
  by code_simp

text \<open>
  On a machine whose only configuration file is \<open>/tmp/my.conf\<close>, the command line
  \<open>-c /tmp/my.conf\<close> does not read it: the guessed file is looked for and not found.
  The path given has become the data directory; it is a file, so creating the data
  directory raises (FileExistsError, an OSError) and the program ends.
\<close>

lemma parseArgs_explicit_config_file:
  "parseArgs example_parse_env explicit_config_args
     = Inr (explicit_config_conf, [''run''], [''config_file''])"
  by code_simp

lemma getConfig_explicit_config_file:
  "getConfig example_config_env explicit_config_conf [''config_file'']
     = Inr (explicit_config_conf @ [(''config_file'', VStr ''/home/u/.config/change-poller/config'')],
            [], True,
            [(WARNING, ''Failed to load config file, is this first time running? Using defaults and trying to save afterwards. {}: {}'')])"
  by code_simp

lemma getConfig_on_disk_explicit_config_file:
  "getConfig_on_disk example_disk example_config_env explicit_config_conf [''config_file'']
     = Inl OSError"
  by code_simp

lemma dirname_examples:
  "dirname ''/home/u/.config/change-poller/config'' = ''/home/u/.config/change-poller''"
  "dirname ''config'' = []"
  "dirname ''/config'' = ''/''"
  by code_simp+

theorem config_file_option_is_ignored_witness:
  "parseArgs example_parse_env explicit_config_args
     = Inr (explicit_config_conf, [''run''], [''config_file'']) \<and>
   args_config_file explicit_config_args = Some ''/tmp/my.conf'' \<and>
   map_of explicit_config_conf ''config_file'' = None \<and>
   map_of (resolve_config_file example_config_env explicit_config_conf) ''config_file''
     = Some (VStr ''/home/u/.config/change-poller/config'') \<and>
   map_of explicit_config_conf ''data_dir'' = Some (VStr ''/tmp/my.conf'')"
proof -
  have a: "args_config_file explicit_config_args = Some ''/tmp/my.conf''"
    by (simp add: explicit_config_args_def)
  have t: "truthy (args_config_file explicit_config_args)"
          "\<not> truthy (args_data_dir explicit_config_args)"
    by (simp_all add: explicit_config_args_def no_args_def truthy_def)
  have g: "guessed_config_file example_config_env = ''/home/u/.config/change-poller/config''"
    by (simp add: guessed_config_file_def example_config_env_def)
  from config_file_option_is_ignored[OF parseArgs_explicit_config_file, of example_config_env] t a g
  have "map_of explicit_config_conf ''config_file'' = None \<and>
        map_of (resolve_config_file example_config_env explicit_config_conf) ''config_file''
          = Some (VStr ''/home/u/.config/change-poller/config'') \<and>
        map_of explicit_config_conf ''data_dir'' = Some (VStr ''/tmp/my.conf'')"
    by simp
  with parseArgs_explicit_config_file a show ?thesis by blast
qed

section \<open>The run\<close>

lemma log_call_one_argument: "log_call [m] [] lg = Inl TypeError"
  by (simp add: log_call_def)

lemma log_call_file_keyword: "log_call [''info'', m] [''file''] lg = Inl TypeError"
  by (simp add: log_call_def level_of_name_def logger_keywords_def)

lemma react_to_url_change_raises:
  "new_url file_data = Some nu \<Longrightarrow>
     react_to_url_change w dir pg data_file old file_data lg = Inl TypeError"
  by (simp add: react_to_url_change_def log_call_one_argument)

text \<open>
  C3 fails on the code. When the data file of a page holds a state with \<open>new_url\<close>,
  the first statement of the url change (line 482) raises TypeError, outside every
  \<open>try\<close>: the run ends there, nothing is stored under the new slug and the old file
  stays.
\<close>

theorem pending_url_change_aborts_run:
  assumes "data_file_of env conf page = Inr (dir, data_file, pg)"
      and "map_of (fs st) data_file = Some (StateFile file_data)"
      and "new_url file_data = Some B"
  shows "run_page env conf urls i page st = Inl TypeError"
  using assms
  by (simp add: run_page_def load_file_data_def react_to_url_change_raises)

text \<open>
  Past that call, lines 484-492 take the domain and the new file name from
  \<open>page['url']\<close>, the old url: the new path is the old path, and the removal after the
  write deletes the file that was just written.
\<close>

lemma apply_url_change_uses_page_url:
  assumes "getSafeFilename w (url pg) = Inr name"
      and "domain_regex_search (url pg) = Some d"
  shows "apply_url_change w dir pg (dir @ ''/'' @ name) nu file_data lg
           = Inr (file_data\<lparr>state_url := nu, new_url := None, domain := d\<rparr>,
                  dir @ ''/'' @ name, Some (dir @ ''/'' @ name), lg)"
  using assms by (simp add: apply_url_change_def)

lemma update_then_remove_same_file:
  "wr p \<Longrightarrow> update_data_file wr p (Some p) file_data files ta lg
             = Inr (dict_del p (dict_set p (StateFile file_data) files), ta, lg)"
  by (simp add: update_data_file_def Let_def map_of_dict_set)

lemma dict_set_keys: "fst ` set (dict_set k v d) = insert k (fst ` set d)"
proof (induction d)
  case Nil
  then show ?case by simp
next
  case (Cons a d)
  obtain k' v' where a: "a = (k', v')" by (cases a)
  show ?case
  proof (cases "k' = k")
    case True
    with a show ?thesis by simp
  next
    case False
    with a Cons show ?thesis by (simp add: insert_commute)
  qed
qed

lemma distinct_dict_set: "distinct (map fst d) \<Longrightarrow> distinct (map fst (dict_set k v d))"
proof (induction d)
  case Nil
  then show ?case by simp
next
  case (Cons a d)
  obtain k' v' where a: "a = (k', v')" by (cases a)
  show ?case
  proof (cases "k' = k")
    case True
    with Cons.prems a show ?thesis by simp
  next
    case False
    from Cons have "distinct (map fst (dict_set k v d))" by simp
    moreover from Cons.prems a False have "k' \<notin> fst ` set (dict_set k v d)"
      by (simp add: dict_set_keys)
    ultimately show ?thesis using a False by simp
  qed
qed

lemma map_of_dict_del:
  "distinct (map fst d) \<Longrightarrow> map_of (dict_del k d) k' = (if k' = k then None else map_of d k')"
proof (induction d)
  case Nil
  then show ?case by simp
next
  case (Cons a d)
  obtain k0 v0 where a: "a = (k0, v0)" by (cases a)
  with Cons.prems have "k0 \<notin> fst ` set d" by simp
  then have "map_of d k0 = None" by (simp add: map_of_eq_None_iff)
  with Cons a show ?case by auto
qed

lemma written_file_is_removed:
  "distinct (map fst files) \<Longrightarrow>
     map_of (dict_del p (dict_set p (StateFile file_data) files)) p = None"
  by (simp add: map_of_dict_del distinct_dict_set)

lemma save_later_raises: "save_later data_file files ta lg = Inl TypeError"
  by (simp add: save_later_def log_call_file_keyword)

lemma update_data_file_keeps_tryAgain:
  "update_data_file wr data_file old file_data files ta lg = Inr (files', ta', lg') \<Longrightarrow> ta' = ta"
  by (auto simp: update_data_file_def Let_def save_later_raises split: if_splits option.splits)

lemma run_page_keeps_tryAgain:
  assumes "run_page env conf urls i page st = Inr st'"
  shows "tryAgain st' = tryAgain st"
proof -
  from assms obtain data_file old file_data files' ta' lg lg' where
    "update_data_file (writable env) data_file old file_data (fs st) (tryAgain st) lg
       = Inr (files', ta', lg')"
    and "tryAgain st' = ta'"
    by (auto simp: run_page_def andThen_def split: sum.splits prod.splits)
  then show ?thesis using update_data_file_keeps_tryAgain by metis
qed

lemma run_pages_keeps_tryAgain:
  "run_pages env conf urls i pages st = Inr st' \<Longrightarrow> tryAgain st' = tryAgain st"
proof (induction pages arbitrary: i st)
  case Nil
  then show ?case by simp
next
  case (Cons page pages)
  from Cons.prems obtain st1 where
    1: "run_page env conf urls i page st = Inr st1"
    and 2: "run_pages env conf urls (Suc i) pages st1 = Inr st'"
    by (auto simp: andThen_def split: sum.splits)
  from Cons.IH[OF 2] run_page_keeps_tryAgain[OF 1] show ?case by simp
qed

lemma run_defers_nothing:
  assumes "run env conf urls fs0 = Inr st"
  shows "tryAgain st = []"
proof -
  let ?st0 = "\<lparr>fs = fs0, allChanges = [], tryAgain = [], logged = [], old_data_file = None\<rparr>"
  from assms obtain v pages where
    "map_of conf ''pages'' = Some v" "iterate v = Inr pages"
    and r: "(if length pages = 0
             then andThen (log_call [''warning'', ''No pages specified!''] [] [])
                    (\<lambda>lg. Inr (?st0\<lparr>logged := lg\<rparr>))
             else run_pages env conf urls 0 pages ?st0) = Inr st"
    by (auto simp: run_def Let_def andThen_def split: option.splits sum.splits)
  show ?thesis
  proof (cases "length pages = 0")
    case True
    with r show ?thesis by auto
  next
    case False
    with r have "run_pages env conf urls 0 pages ?st0 = Inr st" by simp
    from run_pages_keeps_tryAgain[OF this] show ?thesis by simp
  qed
qed

text \<open>
  C4 fails on the code. A save that fails reaches the handler of OSError, whose \<open>_log\<close>
  call has the keyword \<open>file\<close> and raises TypeError; the next statement would read
  \<open>change_data\<close>, which \<open>run\<close> does not have. So a failed save ends the run, and a run
  that returns has deferred nothing: \<open>tryAgain\<close> is empty and there is nothing to retry.
\<close>

theorem failed_save_is_not_deferred:
  "(\<not> wr data_file \<longrightarrow>
      update_data_file wr data_file old file_data files ta lg = Inl TypeError) \<and>
   (run env conf urls fs0 = Inr st \<longrightarrow> tryAgain st = [])"
  by (simp add: update_data_file_def save_later_raises run_defers_nothing)



theorem pending_url_change_aborts_run_witness:
  "data_file_of example_env one_page_conf (IPage example_page)
     = Inr (''/d'', ''/d/ab.cd_x'', example_page) \<and>
   map_of (fs (start_state [(''/d/ab.cd_x'', StateFile moved_state)])) ''/d/ab.cd_x''
     = Some (StateFile moved_state) \<and>
   new_url moved_state = Some ''http://ef.gh/y'' \<and>
   run_page example_env one_page_conf [] 0 (IPage example_page)
       (start_state [(''/d/ab.cd_x'', StateFile moved_state)])
     = Inl TypeError"
proof -
  have h1: "data_file_of example_env one_page_conf (IPage example_page)
              = Inr (''/d'', ''/d/ab.cd_x'', example_page)"
    by code_simp
  have h2: "map_of (fs (start_state [(''/d/ab.cd_x'', StateFile moved_state)])) ''/d/ab.cd_x''
              = Some (StateFile moved_state)"
    by (simp add: start_state_def)
  have h3: "new_url moved_state = Some ''http://ef.gh/y''" by (simp add: moved_state_def)
  from pending_url_change_aborts_run[OF h1 h2 h3, of "[]" 0] h1 h2 h3 show ?thesis by blast
qed

text \<open>The whole run over that page, and the whole run where no file can be written.\<close>

lemma run_with_pending_url_change:
  "run example_env one_page_conf [] [(''/d/ab.cd_x'', StateFile moved_state)] = Inl TypeError"
  by code_simp

lemma main_run_with_failing_save:
  "main_run read_only_env (\<lambda>p. True) one_page_conf [] [(''/d/ab.cd_x'', StateFile stable_state)]
     = Inl TypeError"
  by code_simp

theorem failed_save_is_not_deferred_witness:
  "\<not> writable read_only_env ''/d/ab.cd_x'' \<and>
   update_data_file (writable read_only_env) ''/d/ab.cd_x'' None stable_state
       [(''/d/ab.cd_x'', StateFile stable_state)] [] []
     = Inl TypeError \<and>
   (\<exists>st. run example_env one_page_conf [] [(''/d/ab.cd_x'', StateFile stable_state)] = Inr st \<and>
         tryAgain st = [])"
proof -
  have h1: "\<not> writable read_only_env ''/d/ab.cd_x''"
    by (simp add: read_only_env_def example_env_def)
  have "case run example_env one_page_conf [] [(''/d/ab.cd_x'', StateFile stable_state)] of
          Inl e \<Rightarrow> False | Inr st \<Rightarrow> True"
    by code_simp
  then obtain st where
    h2: "run example_env one_page_conf [] [(''/d/ab.cd_x'', StateFile stable_state)] = Inr st"
    by (auto split: sum.splits)
  from failed_save_is_not_deferred[of "writable read_only_env" "''/d/ab.cd_x''" None stable_state
         "[(''/d/ab.cd_x'', StateFile stable_state)]" "[]" "[]" example_env one_page_conf "[]"
         "[(''/d/ab.cd_x'', StateFile stable_state)]" st] h1 h2
  have "update_data_file (writable read_only_env) ''/d/ab.cd_x'' None stable_state
          [(''/d/ab.cd_x'', StateFile stable_state)] [] [] = Inl TypeError"
    and "tryAgain st = []"
    by blast+
  with h1 h2 show ?thesis by blast
qed


end
